theory Spec2Isabelle
  imports Complex_Main "HOL-Library.Word"
begin

section \<open>Screen and depth capture of the visualizer (VisualizerRender.cpp)\<close>

text \<open>
  The numbers of the source are modelled as follows. A \<open>double\<close> is a value of the
  type \<open>dbl\<close>: a finite number, an infinity or NaN, and every operation of the source
  on doubles is the IEEE 754 operation on binary64, rounded to nearest, ties to even
  (no fused multiply-add, no extended precision). A \<open>float\<close> sample of the depth
  buffer is the real number it stands for. \<open>uint16_t\<close> is \<open>16 word\<close>, a byte is
  \<open>8 word\<close>. Sizes and indices are natural numbers.
\<close>

subsection \<open>Double arithmetic\<close>

text \<open>
  \<open>Fin x\<close> is the finite double of value \<open>x\<close>. The sign of a zero is not kept: it
  shows only in the sign of the infinity that a division by a zero gives, and a zero
  divisor of the depth formula is a difference of two equal numbers, which is \<open>+0\<close>.
\<close>

datatype dbl = Fin real | PInf | NInf | NaN

definition signed_inf :: "bool \<Rightarrow> dbl" where
  "signed_inf negative = (if negative then NInf else PInf)"

text \<open>Rounding to an integer, halfway cases to the even one.\<close>

definition round_half_even :: "real \<Rightarrow> int" where
  "round_half_even x =
     (let n = \<lfloor>x\<rfloor>
      in if x - of_int n < 1 / 2 then n
         else if 1 / 2 < x - of_int n then n + 1
         else if even n then n else n + 1)"

text \<open>
  The doubles between \<open>2 ^ e\<close> and \<open>2 ^ (e + 1)\<close> are the multiples of \<open>2 ^ (e - 52)\<close>;
  below \<open>2 ^ (- 1022)\<close> (the subnormal numbers) they are the multiples of
  \<open>2 ^ (- 1074)\<close>. \<open>rnd64\<close> rounds the exact result of an operation to the nearest
  double; a result that rounds to \<open>2 ^ 1024\<close> or more overflows to an infinity.
\<close>

definition binade :: "real \<Rightarrow> int" where
  "binade x = max \<lfloor>log 2 \<bar>x\<bar>\<rfloor> (- 1022)"

definition ulp :: "real \<Rightarrow> real" where
  "ulp x = 2 powi (binade x - 52)"

definition rnd64 :: "real \<Rightarrow> dbl" where
  "rnd64 x =
     (if x = 0 then Fin 0
      else let r = of_int (round_half_even (\<bar>x\<bar> / ulp x)) * ulp x
           in if 2 ^ 1024 \<le> r then signed_inf (x < 0)
              else Fin (if x < 0 then - r else r))"

fun dbl_uminus :: "dbl \<Rightarrow> dbl" where
  "dbl_uminus (Fin x) = Fin (- x)"
| "dbl_uminus PInf = NInf"
| "dbl_uminus NInf = PInf"
| "dbl_uminus NaN = NaN"

fun dbl_plus :: "dbl \<Rightarrow> dbl \<Rightarrow> dbl" where
  "dbl_plus (Fin x) (Fin y) = rnd64 (x + y)"
| "dbl_plus NaN y = NaN"
| "dbl_plus x NaN = NaN"
| "dbl_plus PInf NInf = NaN"
| "dbl_plus NInf PInf = NaN"
| "dbl_plus PInf y = PInf"
| "dbl_plus NInf y = NInf"
| "dbl_plus x PInf = PInf"
| "dbl_plus x NInf = NInf"

definition dbl_minus :: "dbl \<Rightarrow> dbl \<Rightarrow> dbl" where
  "dbl_minus x y = dbl_plus x (dbl_uminus y)"

fun dbl_times :: "dbl \<Rightarrow> dbl \<Rightarrow> dbl" where
  "dbl_times (Fin x) (Fin y) = rnd64 (x * y)"
| "dbl_times NaN y = NaN"
| "dbl_times x NaN = NaN"
| "dbl_times (Fin x) PInf = (if x = 0 then NaN else signed_inf (x < 0))"
| "dbl_times (Fin x) NInf = (if x = 0 then NaN else signed_inf (0 < x))"
| "dbl_times PInf (Fin y) = (if y = 0 then NaN else signed_inf (y < 0))"
| "dbl_times NInf (Fin y) = (if y = 0 then NaN else signed_inf (0 < y))"
| "dbl_times PInf PInf = PInf"
| "dbl_times PInf NInf = NInf"
| "dbl_times NInf PInf = NInf"
| "dbl_times NInf NInf = PInf"

fun dbl_divide :: "dbl \<Rightarrow> dbl \<Rightarrow> dbl" where
  "dbl_divide (Fin x) (Fin y) =
     (if y = 0 then (if x = 0 then NaN else signed_inf (x < 0)) else rnd64 (x / y))"
| "dbl_divide NaN y = NaN"
| "dbl_divide x NaN = NaN"
| "dbl_divide (Fin x) y = Fin 0"
| "dbl_divide PInf (Fin y) = signed_inf (y < 0)"
| "dbl_divide NInf (Fin y) = signed_inf (0 \<le> y)"
| "dbl_divide x y = NaN"

text \<open>
  \<open>std::round\<close>: to the nearest integer, halfway cases away from zero; the result is
  a double, so nothing is rounded a second time.
\<close>

fun std_round :: "dbl \<Rightarrow> dbl" where
  "std_round (Fin x) =
     Fin (of_int (if 0 \<le> x then \<lfloor>x + 1 / 2\<rfloor> else \<lceil>x - 1 / 2\<rceil>))"
| "std_round x = x"

text \<open>
  The conversion \<open>(uint16_t)x\<close> of a double truncates towards zero. C++ defines it only
  when the truncated value is one of 0 .. 65535; for every other double the behaviour is
  undefined. The result the platform gives there is the parameter \<open>ub\<close>.
\<close>

definition trunc :: "real \<Rightarrow> int" where
  "trunc x = (if 0 \<le> x then \<lfloor>x\<rfloor> else \<lceil>x\<rceil>)"

fun to_uint16 :: "(dbl \<Rightarrow> 16 word) \<Rightarrow> dbl \<Rightarrow> 16 word" where
  "to_uint16 ub (Fin x) =
     (if 0 \<le> trunc x \<and> trunc x \<le> 65535 then word_of_int (trunc x) else ub (Fin x))"
| "to_uint16 ub x = ub x"

text \<open>
  What the x86-64 code of GCC and Clang gives: the double is converted to a 32-bit
  integer (\<open>cvttsd2si\<close>, which yields \<open>0x80000000\<close> for a value that does not fit, for
  an infinity and for a NaN), and the low 16 bits are kept.
\<close>

fun low16 :: "dbl \<Rightarrow> 16 word" where
  "low16 (Fin x) =
     (if - (2 ^ 31) \<le> trunc x \<and> trunc x < 2 ^ 31 then word_of_int (trunc x) else 0)"
| "low16 x = 0"

definition INT16_MAX :: int where
  "INT16_MAX = 32767"

subsection \<open>The depth of a raw sample\<close>

text \<open>
  Lines 192-194: the denominator and the reconstructed depth of the raw sample \<open>d\<close>,
  with the operations of the source in their order: \<open>2.0 * z_near * z_far\<close> is
  \<open>(2.0 * z_near) * z_far\<close>. The arguments are the values of the doubles \<open>z_near\<close> and
  \<open>z_far\<close> and of the float \<open>p_depth[j]\<close>, whose conversion to double is exact.
\<close>

definition depth_denominator :: "real \<Rightarrow> real \<Rightarrow> real \<Rightarrow> dbl" where
  "depth_denominator z_near z_far d =
     dbl_minus (dbl_plus (Fin z_far) (Fin z_near))
       (dbl_times (dbl_minus (dbl_times (Fin 2) (Fin d)) (Fin 1))
          (dbl_minus (Fin z_far) (Fin z_near)))"

definition z_depth :: "real \<Rightarrow> real \<Rightarrow> real \<Rightarrow> dbl" where
  "z_depth z_near z_far d =
     dbl_divide (dbl_times (dbl_times (Fin 2) (Fin z_near)) (Fin z_far))
       (depth_denominator z_near z_far d)"

text \<open>
  Lines 195-196: the sample stored for a raw depth other than 1.0; \<open>depth_scale\<close> is
  the value of the double.
\<close>

definition quantize :: "(dbl \<Rightarrow> 16 word) \<Rightarrow> real \<Rightarrow> dbl \<Rightarrow> 16 word" where
  "quantize ub depth_scale z =
     min (to_uint16 ub (std_round (dbl_times (Fin depth_scale) z))) (word_of_int INT16_MAX)"

subsection \<open>The depth formula in exact arithmetic\<close>




subsection \<open>Faults, loops and buffers\<close>

text \<open>
  A read or write outside a buffer is undefined behaviour in the source; in the model
  it ends the operation with the fault \<open>BufferOverrun\<close>.
\<close>

datatype fault = BufferOverrun

definition and_then :: "fault + 'a \<Rightarrow> ('a \<Rightarrow> fault + 'b) \<Rightarrow> fault + 'b" where
  "and_then r f = (case r of Inl e \<Rightarrow> Inl e | Inr v \<Rightarrow> f v)"

text \<open>\<open>for (int i = 0; i < n; i++) body\<close> is \<open>for_loop [0..<n] body\<close>.\<close>

fun for_loop :: "nat list \<Rightarrow> (nat \<Rightarrow> 's \<Rightarrow> fault + 's) \<Rightarrow> 's \<Rightarrow> fault + 's" where
  "for_loop [] body s = Inr s"
| "for_loop (i # rest) body s = and_then (body i s) (for_loop rest body)"

definition load :: "'a list \<Rightarrow> nat \<Rightarrow> fault + 'a" where
  "load p k = (if k < length p then Inr (p ! k) else Inl BufferOverrun)"

definition store :: "'a list \<Rightarrow> nat \<Rightarrow> 'a \<Rightarrow> fault + 'a list" where
  "store p k v = (if k < length p then Inr (p[k := v]) else Inl BufferOverrun)"

definition memcpy :: "'a list \<Rightarrow> nat \<Rightarrow> 'a list \<Rightarrow> nat \<Rightarrow> nat \<Rightarrow> fault + 'a list" where
  "memcpy dst d_off src s_off n =
     (if d_off + n \<le> length dst \<and> s_off + n \<le> length src
      then Inr (take d_off dst @ take n (drop s_off src) @ drop (d_off + n) dst)
      else Inl BufferOverrun)"

subsection \<open>Images\<close>

text \<open>
  Members are named as in the source, without the trailing underscore. The byte vector
  \<open>data\<close> of an image is kept as the list of its channel samples, each
  standing for \<open>bytes_per_channel\<close> bytes: bytes for the colour image, floats for the
  raw depth image, 16-bit words for the depth output, which is how the source reads and
  writes them (through \<open>float *\<close> and \<open>uint16_t *\<close>).
\<close>

record 'a Image =
  width :: nat
  height :: nat
  num_of_channels :: nat
  bytes_per_channel :: nat
  data :: "'a list"

text \<open>
  Modelled from the spec: \<open>Image::PrepareImage\<close> and \<open>Image::BytesPerLine\<close>, which are
  not in the source file. Section 3: the row stride is width times channel count times
  bytes per channel, and the buffer holds row stride times height bytes; section 4.3,
  step 3: a sample that is not written is 0.
\<close>

definition PrepareImage :: "nat \<Rightarrow> nat \<Rightarrow> nat \<Rightarrow> nat \<Rightarrow> ('a::zero) Image" where
  "PrepareImage w h channels bytes =
     \<lparr>width = w, height = h, num_of_channels = channels, bytes_per_channel = bytes,
      data = replicate (w * h * channels) 0\<rparr>"

text \<open>
  Modelled from the spec: \<open>Image::BytesPerLine\<close>, not in the source file; section 3,
  the row stride.
\<close>

definition BytesPerLine :: "'a Image \<Rightarrow> nat" where
  "BytesPerLine img = width img * num_of_channels img * bytes_per_channel img"

text \<open>The number of bytes of \<open>data\<close>.\<close>

definition size_in_bytes :: "'a Image \<Rightarrow> nat" where
  "size_in_bytes img = length (data img) * bytes_per_channel img"

text \<open>The sample that a typed pointer to byte offset \<open>off\<close> of \<open>data\<close> points to.\<close>

definition sample_at :: "'a Image \<Rightarrow> nat \<Rightarrow> nat" where
  "sample_at img off = off div bytes_per_channel img"

subsection \<open>The framebuffer and \<open>glReadPixels\<close>\<close>

text \<open>
  A plane of the front buffer gives component \<open>k\<close> of the pixel in column \<open>x\<close> of row
  \<open>y\<close>, row 0 at the bottom. Outside the window OpenGL leaves the values undefined: the
  plane has some value there. \<open>glReadPixels\<close> writes the \<open>w\<close> by \<open>h\<close> block at
  \<open>(x, y)\<close> row by row to the start of \<open>pixels\<close>, \<open>n\<close> samples a pixel, rows packed
  (\<open>InitOpenGL\<close> sets \<open>GL_PACK_ALIGNMENT\<close> to 1).
\<close>

record gl_frame =
  color_plane :: "nat \<Rightarrow> nat \<Rightarrow> nat \<Rightarrow> 8 word"
  depth_plane :: "nat \<Rightarrow> nat \<Rightarrow> real"

definition glReadPixels ::
  "(nat \<Rightarrow> nat \<Rightarrow> nat \<Rightarrow> 'a) \<Rightarrow> nat \<Rightarrow> nat \<Rightarrow> nat \<Rightarrow> nat \<Rightarrow> nat \<Rightarrow> 'a list \<Rightarrow> fault + 'a list" where
  "glReadPixels plane n x y w h pixels =
     (if length pixels < w * h * n then Inl BufferOverrun
      else Inr (map (\<lambda>k. plane (x + (k div n) mod w) (y + (k div n) div w) (k mod n))
                  [0..<w * h * n]
                @ drop (w * h * n) pixels))"

subsection \<open>The visualizer and its collaborators\<close>

record view_control =
  GetWindowWidth :: nat
  GetWindowHeight :: nat
  GetZNear :: real
  GetZFar :: real

record ('i, 'e) PinholeCameraTrajectory =
  intrinsic :: 'i
  extrinsic :: "'e list"

datatype ('i, 'e) file_content =
  ColorPng "8 word Image"
| DepthPng "16 word Image"
| CameraJson "('i, 'e) PinholeCameraTrajectory"

record ('i, 'e) Visualizer =
  view_control_ptr :: view_control
  is_redraw_required :: bool
  front_buffer :: gl_frame
  files :: "(string \<times> ('i, 'e) file_content) list"

text \<open>
  What the source calls and the file does not hold: the clock, the view control's
  matrix set-up, the renderers (the frame they draw), the camera conversion, the result
  of an undefined conversion to \<open>uint16_t\<close>, and the platform macro \<open>__APPLE__\<close>.
\<close>

record ('i, 'e) collaborators =
  GetCurrentTimeStamp :: string
  SetViewMatrices :: "view_control \<Rightarrow> view_control"
  renderers :: "view_control \<Rightarrow> gl_frame"
  ConvertToPinholeCameraParameters :: "view_control \<Rightarrow> 'i \<times> 'e"
  undefined_conversion :: "dbl \<Rightarrow> 16 word"
  APPLE :: bool

definition Render :: "('i, 'e) collaborators \<Rightarrow> ('i, 'e) Visualizer \<Rightarrow> ('i, 'e) Visualizer" where
  "Render env vis =
     (let vc = SetViewMatrices env (view_control_ptr vis)
      in vis\<lparr>view_control_ptr := vc, front_buffer := renderers env vc\<rparr>)"

text \<open>\<open>WriteImage\<close> and \<open>WriteIJsonConvertible\<close>: the file is recorded as written.\<close>

definition WriteFile ::
  "string \<Rightarrow> ('i, 'e) file_content \<Rightarrow> ('i, 'e) Visualizer \<Rightarrow> ('i, 'e) Visualizer" where
  "WriteFile name content vis = vis\<lparr>files := files vis @ [(name, content)]\<rparr>"

text \<open>Lines 121-125 and 204-208: the one-pose trajectory and its file.\<close>

definition write_camera ::
  "('i, 'e) collaborators \<Rightarrow> string \<Rightarrow> ('i, 'e) Visualizer \<Rightarrow> ('i, 'e) Visualizer" where
  "write_camera env camera_filename vis =
     (let (intr, extr) = ConvertToPinholeCameraParameters env (view_control_ptr vis);
          trajectory = \<lparr>intrinsic = intr, extrinsic = [extr]\<rparr>
      in WriteFile camera_filename (CameraJson trajectory) vis)"

text \<open>
  Lines 86-92 and 132-138: the names of the image file and of the camera file; the
  camera name stays empty when a file name is given.
\<close>

definition capture_filenames ::
  "('i, 'e) collaborators \<Rightarrow> string \<Rightarrow> string \<Rightarrow> string \<Rightarrow> string \<times> string" where
  "capture_filenames env image_prefix camera_prefix filename =
     (if filename = []
      then (let timestamp = GetCurrentTimeStamp env
            in (image_prefix @ timestamp @ ''.png'', camera_prefix @ timestamp @ ''.json''))
      else (filename, []))"

text \<open>
  Lines 96-100 and 143-147: the render on request. \<open>glFinish\<close> waits for the
  rendering to end and changes nothing that the model holds.
\<close>

definition render_first ::
  "('i, 'e) collaborators \<Rightarrow> ('i, 'e) Visualizer \<Rightarrow> bool \<Rightarrow> ('i, 'e) Visualizer" where
  "render_first env vis do_render =
     (if do_render then (Render env vis)\<lparr>is_redraw_required := False\<rparr> else vis)"

text \<open>Lines 117-126 and 200-209: the image file, and the camera file if it has a name.\<close>

definition write_capture ::
  "('i, 'e) collaborators \<Rightarrow> string \<Rightarrow> string \<Rightarrow> ('i, 'e) file_content \<Rightarrow> ('i, 'e) Visualizer
     \<Rightarrow> ('i, 'e) Visualizer" where
  "write_capture env png_filename camera_filename png vis0 =
     (let vis = WriteFile png_filename png vis0
      in if camera_filename \<noteq> [] then write_camera env camera_filename vis else vis)"

subsection \<open>\<open>Visualizer::CaptureScreenImage\<close>\<close>

text \<open>Lines 110-115: the line-by-line copy, last line of the screen image first.\<close>

definition flip_lines :: "8 word Image \<Rightarrow> 8 word Image \<Rightarrow> fault + 8 word Image" where
  "flip_lines screen_image png_image =
     (let bytes_per_line = BytesPerLine screen_image
      in and_then
           (for_loop [0..<height screen_image]
              (\<lambda>i dst. memcpy dst (bytes_per_line * i) (data screen_image)
                          (bytes_per_line * (height screen_image - i - 1)) bytes_per_line)
              (data png_image))
           (\<lambda>dst. Inr (png_image\<lparr>data := dst\<rparr>)))"

text \<open>
  Lines 93-115: the two images that the capture holds, \<open>screen_image\<close> as read from
  the framebuffer and \<open>png_image\<close> as flipped, with the visualizer after the render.
\<close>

definition capture_screen_buffers ::
  "('i, 'e) collaborators \<Rightarrow> ('i, 'e) Visualizer \<Rightarrow> bool
     \<Rightarrow> fault + (8 word Image \<times> 8 word Image \<times> ('i, 'e) Visualizer)" where
  "capture_screen_buffers env vis0 do_render =
     (let screen_image = PrepareImage (GetWindowWidth (view_control_ptr vis0))
                           (GetWindowHeight (view_control_ptr vis0)) 3 1;
          vis = render_first env vis0 do_render;
          vc = view_control_ptr vis
      in and_then
           (glReadPixels (color_plane (front_buffer vis)) 3 0 0
              (GetWindowWidth vc) (GetWindowHeight vc) (data screen_image))
           (\<lambda>pixels.
              let screen_image = screen_image\<lparr>data := pixels\<rparr>;
                  png_image = PrepareImage (GetWindowWidth vc) (GetWindowHeight vc) 3 1
              in and_then (flip_lines screen_image png_image)
                   (\<lambda>png_image. Inr (screen_image, png_image, vis))))"

text \<open>Lines 83-127: the file names, the two images, the files.\<close>

definition CaptureScreenImage ::
  "('i, 'e) collaborators \<Rightarrow> ('i, 'e) Visualizer \<Rightarrow> string \<Rightarrow> bool \<Rightarrow> fault + ('i, 'e) Visualizer" where
  "CaptureScreenImage env vis0 filename do_render =
     (let (png_filename, camera_filename) =
            capture_filenames env ''ScreenCapture_'' ''ScreenCamera_'' filename
      in and_then (capture_screen_buffers env vis0 do_render)
           (\<lambda>(screen_image, png_image, vis).
              Inr (write_capture env png_filename camera_filename (ColorPng png_image) vis)))"

subsection \<open>\<open>Visualizer::CaptureDepthImage\<close>\<close>

text \<open>Lines 159-168, the branch for \<open>__APPLE__\<close>: the depth buffer read column by column.\<close>

definition read_depth_columns :: "(nat \<Rightarrow> nat \<Rightarrow> real) \<Rightarrow> real Image \<Rightarrow> fault + real list" where
  "read_depth_columns depth depth_image =
     and_then
       (for_loop [0..<width depth_image]
          (\<lambda>j (float_buffer, p).
             and_then
               (glReadPixels (\<lambda>x y k. depth x y) 1 j 0 1 (width depth_image) float_buffer)
               (\<lambda>float_buffer.
                  and_then
                    (for_loop [0..<height depth_image]
                       (\<lambda>i p. and_then (load float_buffer i)
                                 (\<lambda>v. store p (i * width depth_image + j) v))
                       p)
                    (\<lambda>p. Inr (float_buffer, p))))
          (replicate (height depth_image) 0, data depth_image))
       (\<lambda>(float_buffer, p). Inr p)"

text \<open>Lines 171-172, the default branch: one block.\<close>

definition read_depth_block :: "(nat \<Rightarrow> nat \<Rightarrow> real) \<Rightarrow> real Image \<Rightarrow> fault + real list" where
  "read_depth_block depth depth_image =
     glReadPixels (\<lambda>x y k. depth x y) 1 0 0 (width depth_image) (height depth_image)
       (data depth_image)"

text \<open>Lines 183-198: the flip and the conversion to the 16-bit image.\<close>

definition convert_pixel ::
  "(dbl \<Rightarrow> 16 word) \<Rightarrow> real \<Rightarrow> real \<Rightarrow> real \<Rightarrow> real list \<Rightarrow> nat \<Rightarrow> nat \<Rightarrow> nat \<Rightarrow> 16 word list
     \<Rightarrow> fault + 16 word list" where
  "convert_pixel ub z_near z_far depth_scale depth p_depth p_png j png =
     and_then (load depth (p_depth + j))
       (\<lambda>d. if d = 1 then Inr png
            else store png (p_png + j) (quantize ub depth_scale (z_depth z_near z_far d)))"

definition convert_depth ::
  "(dbl \<Rightarrow> 16 word) \<Rightarrow> real \<Rightarrow> real \<Rightarrow> real \<Rightarrow> real Image \<Rightarrow> 16 word Image \<Rightarrow> fault + 16 word Image" where
  "convert_depth ub z_near z_far depth_scale depth_image png_image =
     and_then
       (for_loop [0..<height depth_image]
          (\<lambda>i png.
             let p_depth = sample_at depth_image
                             (BytesPerLine depth_image * (height depth_image - i - 1));
                 p_png = sample_at png_image (BytesPerLine png_image * i)
             in for_loop [0..<width depth_image]
                  (convert_pixel ub z_near z_far depth_scale (data depth_image) p_depth p_png)
                  png)
          (data png_image))
       (\<lambda>png. Inr (png_image\<lparr>data := png\<rparr>))"

text \<open>Lines 149-173: the read of the depth buffer into the raw depth image.\<close>

definition read_depth ::
  "('i, 'e) collaborators \<Rightarrow> (nat \<Rightarrow> nat \<Rightarrow> real) \<Rightarrow> real Image \<Rightarrow> fault + real list" where
  "read_depth env depth depth_image =
     (if APPLE env then read_depth_columns depth depth_image
      else read_depth_block depth depth_image)"

text \<open>
  Lines 139-198: the two images that the capture holds, \<open>depth_image\<close> as read from
  the depth buffer and \<open>png_image\<close> as converted, with the visualizer after the render.
\<close>

definition capture_depth_buffers ::
  "('i, 'e) collaborators \<Rightarrow> ('i, 'e) Visualizer \<Rightarrow> bool \<Rightarrow> real
     \<Rightarrow> fault + (real Image \<times> 16 word Image \<times> ('i, 'e) Visualizer)" where
  "capture_depth_buffers env vis0 do_render depth_scale =
     (let depth_image = PrepareImage (GetWindowWidth (view_control_ptr vis0))
                          (GetWindowHeight (view_control_ptr vis0)) 1 4;
          vis = render_first env vis0 do_render;
          vc = view_control_ptr vis
      in and_then (read_depth env (depth_plane (front_buffer vis)) depth_image)
           (\<lambda>p.
              let depth_image = depth_image\<lparr>data := p\<rparr>;
                  z_near = GetZNear vc;
                  z_far = GetZFar vc;
                  png_image = PrepareImage (GetWindowWidth vc) (GetWindowHeight vc) 1 2
              in and_then
                   (convert_depth (undefined_conversion env) z_near z_far depth_scale
                      depth_image png_image)
                   (\<lambda>png_image. Inr (depth_image, png_image, vis))))"

text \<open>Lines 129-210: the file names, the two images, the files.\<close>

definition CaptureDepthImage ::
  "('i, 'e) collaborators \<Rightarrow> ('i, 'e) Visualizer \<Rightarrow> string \<Rightarrow> bool \<Rightarrow> real
     \<Rightarrow> fault + ('i, 'e) Visualizer" where
  "CaptureDepthImage env vis0 filename do_render depth_scale =
     (let (png_filename, camera_filename) =
            capture_filenames env ''DepthCapture_'' ''DepthCamera_'' filename
      in and_then (capture_depth_buffers env vis0 do_render depth_scale)
           (\<lambda>(depth_image, png_image, vis).
              Inr (write_capture env png_filename camera_filename (DepthPng png_image) vis)))"

text \<open>The view control's matrix set-up leaves the window size as it is.\<close>

definition window_kept :: "('i, 'e) collaborators \<Rightarrow> view_control \<Rightarrow> bool" where
  "window_kept env vc \<longleftrightarrow>
     GetWindowWidth (SetViewMatrices env vc) = GetWindowWidth vc
     \<and> GetWindowHeight (SetViewMatrices env vc) = GetWindowHeight vc"

subsection \<open>The staging buffers of the two captures\<close>

text \<open>
  Lines 93-103: what \<open>CaptureScreenImage\<close> reads into \<open>screen_image\<close>, and lines
  139-173: what \<open>CaptureDepthImage\<close> reads into \<open>depth_image\<close>.
\<close>

definition screen_pixels ::
  "('i, 'e) collaborators \<Rightarrow> ('i, 'e) Visualizer \<Rightarrow> bool \<Rightarrow> fault + 8 word list" where
  "screen_pixels env vis0 do_render =
     (let vis = render_first env vis0 do_render
      in glReadPixels (color_plane (front_buffer vis)) 3 0 0
           (GetWindowWidth (view_control_ptr vis)) (GetWindowHeight (view_control_ptr vis))
           (data (PrepareImage (GetWindowWidth (view_control_ptr vis0))
                    (GetWindowHeight (view_control_ptr vis0)) 3 1 :: 8 word Image)))"

definition raw_depth ::
  "('i, 'e) collaborators \<Rightarrow> ('i, 'e) Visualizer \<Rightarrow> bool \<Rightarrow> fault + real list" where
  "raw_depth env vis0 do_render =
     read_depth env (depth_plane (front_buffer (render_first env vis0 do_render)))
       (PrepareImage (GetWindowWidth (view_control_ptr vis0))
          (GetWindowHeight (view_control_ptr vis0)) 1 4)"

subsection \<open>Lines of a buffer, and an example capture\<close>

text \<open>Line \<open>i\<close> of a buffer whose lines hold \<open>b\<close> samples each.\<close>

definition line :: "nat \<Rightarrow> 'a list \<Rightarrow> nat \<Rightarrow> 'a list" where
  "line b xs i = take b (drop (b * i) xs)"

text \<open>
  A window one pixel wide and two pixels high. The renderers draw a surface at raw depth
  0.5 in the bottom pixel and nothing in the top pixel; before the render the front
  buffer is empty. The clip distances are 50 and 150, so the surface lies at depth 75.
\<close>

definition example_frame :: gl_frame where
  "example_frame =
     \<lparr>color_plane = (\<lambda>x y k. if y = 0 then 200 else 7),
      depth_plane = (\<lambda>x y. if y = 0 then 1 / 2 else 1)\<rparr>"

definition empty_frame :: gl_frame where
  "empty_frame = \<lparr>color_plane = (\<lambda>x y k. 0), depth_plane = (\<lambda>x y. 1)\<rparr>"

definition example_env :: "(nat \<times> nat, real \<times> real) collaborators" where
  "example_env =
     \<lparr>GetCurrentTimeStamp = ''2016-06-01-12-00-00'',
      SetViewMatrices = (\<lambda>vc. vc),
      renderers = (\<lambda>vc. example_frame),
      ConvertToPinholeCameraParameters =
        (\<lambda>vc. ((GetWindowWidth vc, GetWindowHeight vc), (GetZNear vc, GetZFar vc))),
      undefined_conversion = low16,
      APPLE = False\<rparr>"

definition example_vis :: "(nat \<times> nat, real \<times> real) Visualizer" where
  "example_vis =
     \<lparr>view_control_ptr =
        \<lparr>GetWindowWidth = 1, GetWindowHeight = 2, GetZNear = 50, GetZFar = 150\<rparr>,
      is_redraw_required = True,
      front_buffer = empty_frame,
      files = []\<rparr>"

text \<open>
  A window of one pixel at the raw depth 0.125, with the clip distances 1 and 3: the
  depth \<open>6 / 5.5\<close> is no double and is rounded.
\<close>

definition rounding_vis :: "(nat \<times> nat, real \<times> real) Visualizer" where
  "rounding_vis =
     \<lparr>view_control_ptr =
        \<lparr>GetWindowWidth = 1, GetWindowHeight = 1, GetZNear = 1, GetZFar = 3\<rparr>,
      is_redraw_required = False,
      front_buffer = \<lparr>color_plane = (\<lambda>x y k. 0), depth_plane = (\<lambda>x y. 1 / 8)\<rparr>,
      files = []\<rparr>"

section \<open>Rounding to a double\<close>


lemma round_half_even_of_int [simp]: "round_half_even (of_int k) = k"
  by (simp add: round_half_even_def)

lemma floor_log2_binade:
  assumes "2 powi e \<le> \<bar>x\<bar>" "\<bar>x\<bar> < 2 powi (e + 1)"
  shows "\<lfloor>log 2 \<bar>x\<bar>\<rfloor> = e"
proof -
  have pos: "0 < \<bar>x\<bar>"
    using assms(1) by (smt (verit) zero_less_power_int)
  have "(2::real) powr real_of_int e = 2 powi e" "(2::real) powr (real_of_int e + 1) = 2 powi (e + 1)"
    using powr_real_of_int' [of "2::real" e] powr_real_of_int' [of "2::real" "e + 1"] by simp_all
  then show ?thesis
    using assms pos by (simp add: floor_log_eq_powr_iff)
qed

lemma ulp_binade:
  assumes "2 powi e \<le> \<bar>x\<bar>" "\<bar>x\<bar> < 2 powi (e + 1)" "- 1022 \<le> e"
  shows "ulp x = 2 powi (e - 52)"
  using floor_log2_binade [OF assms(1,2)] assms(3) by (simp add: ulp_def binade_def)


lemma rnd64_binade:
  assumes "2 powi e \<le> \<bar>x\<bar>" "\<bar>x\<bar> < 2 powi (e + 1)" "- 1022 \<le> e"
  shows "rnd64 x =
     (let r = of_int (round_half_even (\<bar>x\<bar> / 2 powi (e - 52))) * 2 powi (e - 52)
      in if 2 ^ 1024 \<le> r then signed_inf (x < 0) else Fin (if x < 0 then - r else r))"
proof -
  have "x \<noteq> 0" using assms(1) by (smt (verit) zero_less_power_int)
  then show ?thesis by (simp add: rnd64_def ulp_binade [OF assms])
qed


lemma rnd64_of_int:
  assumes "\<bar>n\<bar> \<le> 2 ^ 53"
  shows "rnd64 (of_int n) = Fin (of_int n)"
proof (cases "n = 0")
  case True
  then show ?thesis by (simp add: rnd64_def)
next
  case False
  define x :: real where "x = of_int n"
  define e where "e = \<lfloor>log 2 \<bar>x\<bar>\<rfloor>"
  have x1: "1 \<le> \<bar>x\<bar>" using False by (simp add: x_def flip: of_int_abs)
  have x53: "\<bar>x\<bar> \<le> 2 ^ 53"
  proof -
    have "real_of_int \<bar>n\<bar> \<le> real_of_int (2 ^ 53)" using assms by (rule of_int_le_iff [THEN iffD2])
    then show ?thesis by (simp add: x_def)
  qed
  have p: "(2::real) powr real_of_int k = 2 powi k" for k
    using powr_real_of_int' [of "2::real" k] by simp
  have b: "2 powi e \<le> \<bar>x\<bar>" "\<bar>x\<bar> < 2 powi (e + 1)"
    using floor_log_eq_powr_iff [of "\<bar>x\<bar>" 2 e] x1 p [of e] p [of "e + 1"]
    by (simp_all add: e_def)
  have e0: "0 \<le> e"
    using x1 by (simp add: e_def)
  have e53: "e \<le> 53"
  proof -
    have "log 2 \<bar>x\<bar> \<le> log 2 (2 ^ 53)" using x1 x53 by (intro log_mono) simp_all
    also have "log 2 ((2::real) ^ 53) = real (53::nat)" by (rule log_pow_cancel) simp_all
    finally show ?thesis unfolding e_def by simp
  qed
  have "\<exists>k. \<bar>x\<bar> / 2 powi (e - 52) = real_of_int k"
  proof (cases "e = 53")
    case True
    then have "2 ^ 53 \<le> \<bar>x\<bar>" using b(1) by simp
    then have "\<bar>x\<bar> = 2 ^ 53" using x53 by simp
    then have "\<bar>x\<bar> / 2 powi (e - 52) = real_of_int (2 ^ 52)" using True by simp
    then show ?thesis by blast
  next
    case False
    then have le: "e \<le> 52" using e53 by simp
    have "\<bar>x\<bar> / 2 powi (e - 52) = \<bar>x\<bar> * 2 powi (52 - e)"
      by (simp add: power_int_diff field_simps)
    also have "2 powi (52 - e) = (2::real) ^ nat (52 - e)"
      using le by (simp add: power_int_def)
    also have "\<bar>x\<bar> * 2 ^ nat (52 - e) = real_of_int (\<bar>n\<bar> * 2 ^ nat (52 - e))"
      by (simp add: x_def)
    finally show ?thesis by blast
  qed
  then obtain k where k: "\<bar>x\<bar> / 2 powi (e - 52) = real_of_int k" by blast
  have "real_of_int k * 2 powi (e - 52) = \<bar>x\<bar>"
    unfolding k [symmetric] by simp
  then have r: "real_of_int (round_half_even (\<bar>x\<bar> / 2 powi (e - 52))) * 2 powi (e - 52) = \<bar>x\<bar>"
    unfolding k by simp
  have "\<bar>x\<bar> < 2 ^ 1024"
  proof -
    have "\<bar>x\<bar> \<le> 2 ^ 53" by (rule x53)
    also have "\<dots> < (2::real) ^ 1024" by simp
    finally show ?thesis .
  qed
  then have "rnd64 x = Fin x"
    using rnd64_binade [OF b] e0 by (simp add: r Let_def)
  then show ?thesis by (simp add: x_def)
qed

lemma rnd64_numeral:
  "numeral w \<le> (2 ^ 53 :: int) \<Longrightarrow> rnd64 (numeral w) = Fin (numeral w)"
  "numeral w \<le> (2 ^ 53 :: int) \<Longrightarrow> rnd64 (- numeral w) = Fin (- numeral w)"
  "rnd64 0 = Fin 0" "rnd64 1 = Fin 1" "rnd64 (- 1) = Fin (- 1)"
  using rnd64_of_int [of "numeral w"] rnd64_of_int [of "- numeral w"] rnd64_of_int [of 0]
    rnd64_of_int [of 1] rnd64_of_int [of "- 1"]
  by simp_all

lemma rnd64_15_2: "rnd64 (15 / 2) = Fin (15 / 2)"
  by (simp add: rnd64_binade [of 2] round_half_even_def)

section \<open>Loops and buffers: the results of the capture steps\<close>

lemma and_then_Inr [simp]: "and_then (Inr v) f = f v"
  by (simp add: and_then_def)

lemma and_then_Inl [simp]: "and_then (Inl e) f = Inl e"
  by (simp add: and_then_def)

lemma for_loop_append:
  "for_loop (xs @ ys) body s = and_then (for_loop xs body s) (for_loop ys body)"
  by (induction xs arbitrary: s) (auto simp: and_then_def split: sum.splits)

lemma for_loop_invariant:
  assumes "P 0 s"
    and "\<And>i t. i < n \<Longrightarrow> P i t \<Longrightarrow> \<exists>t'. body i t = Inr t' \<and> P (Suc i) t'"
  shows "\<exists>t. for_loop [0..<n] body s = Inr t \<and> P n t"
  using assms(2)
proof (induction n)
  case 0
  then show ?case using assms(1) by simp
next
  case (Suc n)
  then obtain t where t: "for_loop [0..<n] body s = Inr t" "P n t"
    by (metis less_Suc_eq)
  from Suc.prems [OF _ t(2)] obtain t' where "body n t = Inr t'" "P (Suc n) t'"
    by auto
  then show ?case using t by (simp add: for_loop_append)
qed

lemma memcpy_nth:
  assumes "d_off + n \<le> length dst" "s_off + n \<le> length src"
  shows "\<exists>r. memcpy dst d_off src s_off n = Inr r \<and> length r = length dst
     \<and> (\<forall>k<length dst. r ! k =
          (if d_off \<le> k \<and> k < d_off + n then src ! (s_off + (k - d_off)) else dst ! k))"
  using assms by (auto simp: memcpy_def nth_append)


lemma block_index_less:
  fixes b :: nat
  assumes "r < i" "k < b"
  shows "b * r + k < b * i"
proof -
  have "b * r + k < b * r + b" using assms by simp
  also have "\<dots> = b * Suc r" by simp
  also have "\<dots> \<le> b * i" using assms(1) by (intro mult_le_mono2) simp
  finally show ?thesis .
qed

lemma flip_lines_result:
  assumes src: "length (data screen) = BytesPerLine screen * height screen"
    and dst: "length (data png) = BytesPerLine screen * height screen"
  shows "\<exists>out. flip_lines screen png = Inr (png\<lparr>data := out\<rparr>)
     \<and> length out = BytesPerLine screen * height screen
     \<and> (\<forall>i<height screen. \<forall>k<BytesPerLine screen.
          out ! (BytesPerLine screen * i + k)
            = data screen ! (BytesPerLine screen * (height screen - 1 - i) + k))"
proof -
  define b where "b = BytesPerLine screen"
  define h where "h = height screen"
  define P where "P i t \<longleftrightarrow> length t = b * h
      \<and> (\<forall>r<i. \<forall>k<b. t ! (b * r + k) = data screen ! (b * (h - 1 - r) + k))" for i t
  define body where "body = (\<lambda>i t. memcpy t (b * i) (data screen) (b * (h - i - 1)) b)"
  have "\<exists>t. for_loop [0..<h] body (data png) = Inr t \<and> P h t"
  proof (rule for_loop_invariant)
    show "P 0 (data png)" using dst by (simp add: P_def b_def h_def)
  next
    fix i t
    assume i: "i < h" and Pt: "P i t"
    have len: "length t = b * h" using Pt by (simp add: P_def)
    have "b * i + b = b * Suc i" by simp
    also have "\<dots> \<le> b * h" using i by (intro mult_le_mono2) simp
    finally have d_ok: "b * i + b \<le> length t" using len by simp
    have "b * (h - i - 1) + b = b * Suc (h - i - 1)" by simp
    also have "\<dots> \<le> b * h" using i by (intro mult_le_mono2) simp
    finally have s_ok: "b * (h - i - 1) + b \<le> length (data screen)"
      using src by (simp add: b_def h_def)
    from memcpy_nth [OF d_ok s_ok] obtain r where r: "body i t = Inr r" "length r = length t"
      "\<forall>k<length t. r ! k = (if b * i \<le> k \<and> k < b * i + b
          then data screen ! (b * (h - i - 1) + (k - b * i)) else t ! k)"
      unfolding body_def by blast
    have "P (Suc i) r"
      unfolding P_def
    proof (intro conjI allI impI)
      show "length r = b * h" using r(2) len by simp
    next
      fix q k
      assume q: "q < Suc i" and k: "k < b"
      have "b * q + k < b * Suc i" using q k by (rule block_index_less)
      also have "\<dots> \<le> b * h" using i by (intro mult_le_mono2) simp
      finally have in_t: "b * q + k < length t" using len by simp
      show "r ! (b * q + k) = data screen ! (b * (h - 1 - q) + k)"
      proof (cases "q = i")
        case True
        then show ?thesis using r(3) in_t k by simp
      next
        case False
        then have qi: "q < i" using q by simp
        then have "b * q + k < b * i" using k by (rule block_index_less)
        then have "r ! (b * q + k) = t ! (b * q + k)" using r(3) in_t by simp
        then show ?thesis using Pt qi k by (simp add: P_def)
      qed
    qed
    then show "\<exists>t'. body i t = Inr t' \<and> P (Suc i) t'" using r(1) by blast
  qed
  then obtain t where t: "for_loop [0..<h] body (data png) = Inr t" "P h t" by blast
  have "flip_lines screen png = Inr (png\<lparr>data := t\<rparr>)"
    using t(1) by (simp add: flip_lines_def Let_def body_def b_def h_def)
  then show ?thesis using t(2) unfolding P_def b_def h_def by blast
qed


lemma sample_at_line:
  assumes "num_of_channels img = 1" "0 < bytes_per_channel img"
  shows "sample_at img (BytesPerLine img * r) = width img * r"
proof -
  have "BytesPerLine img * r = (width img * r) * bytes_per_channel img"
    using assms(1) by (simp add: BytesPerLine_def)
  then have "sample_at img (BytesPerLine img * r)
      = (width img * r) * bytes_per_channel img div bytes_per_channel img"
    by (simp only: sample_at_def)
  also have "\<dots> = width img * r" using assms(2) by simp
  finally show ?thesis .
qed

lemma convert_depth_result:
  assumes dimg: "width depth_image = w" "height depth_image = h"
      "num_of_channels depth_image = 1" "0 < bytes_per_channel depth_image"
      "length (data depth_image) = w * h"
    and pimg: "num_of_channels png_image = 1" "0 < bytes_per_channel png_image"
      "width png_image = w" "length (data png_image) = w * h"
  shows "\<exists>out. convert_depth ub z_near z_far depth_scale depth_image png_image
        = Inr (png_image\<lparr>data := out\<rparr>)
     \<and> length out = w * h
     \<and> (\<forall>i<h. \<forall>j<w. out ! (w * i + j)
          = (if data depth_image ! (w * (h - 1 - i) + j) = 1 then data png_image ! (w * i + j)
             else quantize ub depth_scale
                    (z_depth z_near z_far (data depth_image ! (w * (h - 1 - i) + j)))))"
proof -
  define conv where "conv d old =
      (if d = 1 then old else quantize ub depth_scale (z_depth z_near z_far d))" for d old
  define G where "G k = conv
      (data depth_image ! (w * (h - 1 - k div w) + k mod w)) (data png_image ! k)" for k
  define R where "R n t \<longleftrightarrow> length t = w * h \<and> (\<forall>k<n. t ! k = G k)
      \<and> (\<forall>k. n \<le> k \<and> k < w * h \<longrightarrow> t ! k = data png_image ! k)" for n t
  define row where "row = (\<lambda>i png.
      let p_depth = sample_at depth_image
                      (BytesPerLine depth_image * (height depth_image - i - 1));
          p_png = sample_at png_image (BytesPerLine png_image * i)
      in for_loop [0..<width depth_image]
           (convert_pixel ub z_near z_far depth_scale (data depth_image) p_depth p_png) png)"
  have row_step: "\<exists>t'. row i t = Inr t' \<and> R (w * Suc i) t'" if i: "i < h" and Rt: "R (w * i) t" for i t
  proof -
    define px where "px = convert_pixel ub z_near z_far depth_scale (data depth_image)
        (w * (h - i - 1)) (w * i)"
    have row_eq: "row i t = for_loop [0..<w] px t"
      using dimg pimg by (simp add: row_def px_def sample_at_line)
    have "\<exists>t'. for_loop [0..<w] px t = Inr t' \<and> R (w * i + w) t'"
    proof (rule for_loop_invariant [where P = "\<lambda>j. R (w * i + j)"])
      show "R (w * i + 0) t" using Rt by simp
    next
      fix j u
      assume j: "j < w" and Ru: "R (w * i + j) u"
      have len: "length u = w * h" using Ru by (simp add: R_def)
      have "w * i + j < w * Suc i" using j by simp
      also have "\<dots> \<le> w * h" using i by (intro mult_le_mono2) simp
      finally have dst_ok: "w * i + j < w * h" .
      have "w * (h - i - 1) + j < w * Suc (h - i - 1)" using j by simp
      also have "\<dots> \<le> w * h" using i by (intro mult_le_mono2) simp
      finally have src_ok: "w * (h - i - 1) + j < length (data depth_image)"
        using dimg by simp
      define d where "d = data depth_image ! (w * (h - i - 1) + j)"
      have Gk: "G (w * i + j) = conv d (data png_image ! (w * i + j))"
        using j by (simp add: G_def d_def)
      have old: "u ! (w * i + j) = data png_image ! (w * i + j)"
        using Ru dst_ok by (simp add: R_def)
      show "\<exists>t'. px j u = Inr t' \<and> R (w * i + Suc j) t'"
      proof (cases "d = 1")
        case True
        then have "px j u = Inr u"
          using src_ok by (simp add: px_def convert_pixel_def load_def d_def)
        moreover have "R (w * i + Suc j) u"
          unfolding R_def
        proof (intro conjI allI impI)
          show "length u = w * h" by (rule len)
        next
          fix k assume "k < w * i + Suc j"
          then consider "k < w * i + j" | "k = w * i + j" by linarith
          then show "u ! k = G k"
          proof cases
            case 1 then show ?thesis using Ru by (simp add: R_def)
          next
            case 2 then show ?thesis using Gk old True by (simp add: conv_def)
          qed
        next
          fix k assume "w * i + Suc j \<le> k \<and> k < w * h"
          then show "u ! k = data png_image ! k" using Ru by (simp add: R_def)
        qed
        ultimately show ?thesis by blast
      next
        case False
        define v where "v = quantize ub depth_scale (z_depth z_near z_far d)"
        have "px j u = Inr (u[w * i + j := v])"
          using src_ok dst_ok len False
          by (simp add: px_def convert_pixel_def load_def store_def d_def v_def)
        moreover have "R (w * i + Suc j) (u[w * i + j := v])"
          unfolding R_def
        proof (intro conjI allI impI)
          show "length (u[w * i + j := v]) = w * h" using len by simp
        next
          fix k assume "k < w * i + Suc j"
          then consider "k < w * i + j" | "k = w * i + j" by linarith
          then show "u[w * i + j := v] ! k = G k"
          proof cases
            case 1 then show ?thesis using Ru by (simp add: R_def)
          next
            case 2 then show ?thesis
              using Gk False len dst_ok by (simp add: conv_def v_def)
          qed
        next
          fix k assume "w * i + Suc j \<le> k \<and> k < w * h"
          then show "u[w * i + j := v] ! k = data png_image ! k" using Ru by (simp add: R_def)
        qed
        ultimately show ?thesis by blast
      qed
    qed
    moreover have "w * i + w = w * Suc i" by simp
    ultimately show ?thesis using row_eq by (simp only:)
  qed
  have "\<exists>t. for_loop [0..<h] row (data png_image) = Inr t \<and> R (w * h) t"
  proof (rule for_loop_invariant [where P = "\<lambda>i. R (w * i)"])
    show "R (w * 0) (data png_image)" using pimg by (simp add: R_def)
  next
    fix i t
    assume "i < h" "R (w * i) t"
    then show "\<exists>t'. row i t = Inr t' \<and> R (w * Suc i) t'" by (rule row_step)
  qed
  then obtain t where t: "for_loop [0..<h] row (data png_image) = Inr t" "R (w * h) t"
    by blast
  have res: "convert_depth ub z_near z_far depth_scale depth_image png_image
      = Inr (png_image\<lparr>data := t\<rparr>)"
    using t(1) dimg(2) by (simp add: convert_depth_def row_def)
  have "t ! (w * i + j) = conv
      (data depth_image ! (w * (h - 1 - i) + j)) (data png_image ! (w * i + j))"
    if "i < h" "j < w" for i j
  proof -
    have "w * i + j < w * Suc i" using that by simp
    also have "\<dots> \<le> w * h" using that by (intro mult_le_mono2) simp
    finally have "t ! (w * i + j) = G (w * i + j)" using t(2) by (simp add: R_def)
    then show ?thesis using that by (simp add: G_def)
  qed
  then show ?thesis using res t(2) by (auto simp: R_def conv_def)
qed


lemma glReadPixels_whole:
  assumes "length pixels = w * h * n"
  shows "glReadPixels plane n x y w h pixels
     = Inr (map (\<lambda>k. plane (x + (k div n) mod w) (y + (k div n) div w) (k mod n))
              [0..<w * h * n])"
  using assms by (simp add: glReadPixels_def)

lemma render_first_window:
  assumes "window_kept env (view_control_ptr vis)"
  shows "GetWindowWidth (view_control_ptr (render_first env vis do_render))
           = GetWindowWidth (view_control_ptr vis)"
    and "GetWindowHeight (view_control_ptr (render_first env vis do_render))
           = GetWindowHeight (view_control_ptr vis)"
  using assms by (simp_all add: render_first_def Render_def window_kept_def Let_def)

lemma rgb_index:
  fixes W :: nat
  assumes "x < W" "c < 3"
  shows "(W * 3 * r + (x * 3 + c)) div 3 = W * r + x"
    and "(W * 3 * r + (x * 3 + c)) mod 3 = c"
    and "x * 3 + c < W * 3"
proof -
  have e: "W * 3 * r + (x * 3 + c) = c + (W * r + x) * 3" by (simp add: algebra_simps)
  have "(c + (W * r + x) * 3) div 3 = (W * r + x) + c div 3"
    by (rule div_mult_self1) simp
  then show "(W * 3 * r + (x * 3 + c)) div 3 = W * r + x"
    unfolding e using assms(2) by simp
  have "(c + (W * r + x) * 3) mod 3 = c mod 3"
    by (rule mod_mult_self1)
  then show "(W * 3 * r + (x * 3 + c)) mod 3 = c"
    unfolding e using assms(2) by simp
  show "x * 3 + c < W * 3" using assms by linarith
qed

lemma CaptureScreenImage_result:
  fixes env :: "('i, 'e) collaborators" and vis0 :: "('i, 'e) Visualizer"
    and do_render :: bool and filename :: string
  assumes kept: "window_kept env (view_control_ptr vis0)"
  defines "vis \<equiv> render_first env vis0 do_render"
  defines "W \<equiv> GetWindowWidth (view_control_ptr vis0)"
  defines "H \<equiv> GetWindowHeight (view_control_ptr vis0)"
  defines "names \<equiv> capture_filenames env ''ScreenCapture_'' ''ScreenCamera_'' filename"
  shows "\<exists>pixels out.
       screen_pixels env vis0 do_render = Inr pixels
     \<and> length pixels = W * H * 3
     \<and> flip_lines \<lparr>width = W, height = H, num_of_channels = 3,
                     bytes_per_channel = 1, data = pixels\<rparr> (PrepareImage W H 3 1)
        = Inr \<lparr>width = W, height = H, num_of_channels = 3,
                bytes_per_channel = 1, data = out\<rparr>
     \<and> capture_screen_buffers env vis0 do_render
        = Inr (\<lparr>width = W, height = H, num_of_channels = 3,
                 bytes_per_channel = 1, data = pixels\<rparr>,
               \<lparr>width = W, height = H, num_of_channels = 3,
                 bytes_per_channel = 1, data = out\<rparr>, vis)
     \<and> CaptureScreenImage env vis0 filename do_render
        = Inr (write_capture env (fst names) (snd names)
                 (ColorPng \<lparr>width = W, height = H, num_of_channels = 3,
                            bytes_per_channel = 1, data = out\<rparr>) vis)
     \<and> length out = W * H * 3
     \<and> (\<forall>i<H. \<forall>k<W * 3. out ! (W * 3 * i + k) = pixels ! (W * 3 * (H - 1 - i) + k))
     \<and> (\<forall>i<H. \<forall>x<W. \<forall>c<3. out ! (W * 3 * i + (x * 3 + c))
            = color_plane (front_buffer vis) x (H - 1 - i) c)"
proof -
  define plane where "plane = color_plane (front_buffer vis)"
  define pixels where "pixels = map (\<lambda>k. plane ((k div 3) mod W) ((k div 3) div W) (k mod 3))
      [0..<W * H * 3]"
  define screen :: "8 word Image" where
    "screen = (PrepareImage W H 3 1)\<lparr>data := pixels\<rparr>"
  define png :: "8 word Image" where "png = PrepareImage W H 3 1"
  have win: "GetWindowWidth (view_control_ptr vis) = W" "GetWindowHeight (view_control_ptr vis) = H"
    unfolding vis_def W_def H_def using render_first_window [OF kept] by simp_all
  have rd: "glReadPixels plane 3 0 0 W H (data (PrepareImage W H 3 1 :: 8 word Image)) = Inr pixels"
    by (simp add: glReadPixels_whole PrepareImage_def pixels_def)
  have bpl: "BytesPerLine screen = W * 3" "height screen = H"
    by (simp_all add: screen_def BytesPerLine_def PrepareImage_def)
  have "length (data screen) = BytesPerLine screen * height screen"
    and "length (data png) = BytesPerLine screen * height screen"
    unfolding bpl by (simp_all add: screen_def png_def pixels_def PrepareImage_def algebra_simps)
  from flip_lines_result [OF this] obtain out where out:
    "flip_lines screen png = Inr (png\<lparr>data := out\<rparr>)" "length out = W * 3 * H"
    "\<forall>i<H. \<forall>k<W * 3. out ! (W * 3 * i + k) = data screen ! (W * 3 * (H - 1 - i) + k)"
    unfolding bpl by blast
  have bufs: "capture_screen_buffers env vis0 do_render
      = Inr ((PrepareImage W H 3 1)\<lparr>data := pixels\<rparr>, png\<lparr>data := out\<rparr>, vis)"
    unfolding capture_screen_buffers_def
    using rd out(1) [unfolded screen_def png_def]
    by (simp add: Let_def vis_def [symmetric] win W_def [symmetric]
        H_def [symmetric] plane_def [symmetric] png_def)
  have res: "CaptureScreenImage env vis0 filename do_render
      = Inr (write_capture env (fst names) (snd names) (ColorPng (png\<lparr>data := out\<rparr>)) vis)"
    unfolding CaptureScreenImage_def
    by (simp add: bufs split_beta names_def [symmetric])
  have px: "out ! (W * 3 * i + (x * 3 + c)) = plane x (H - 1 - i) c"
    if "i < H" "x < W" "c < 3" for i x c
  proof -
    note ix = rgb_index [OF that(2,3)]
    have "W * 3 * (H - 1 - i) + (x * 3 + c) < W * 3 * Suc (H - 1 - i)"
      using ix(3) by simp
    also have "\<dots> \<le> W * 3 * H" using that(1) by (intro mult_le_mono2) simp
    finally have lt: "W * 3 * (H - 1 - i) + (x * 3 + c) < W * H * 3" by (simp add: algebra_simps)
    have "out ! (W * 3 * i + (x * 3 + c)) = data screen ! (W * 3 * (H - 1 - i) + (x * 3 + c))"
      using out(3) that(1) ix(3) by simp
    also have "\<dots> = pixels ! (W * 3 * (H - 1 - i) + (x * 3 + c))"
      by (simp add: screen_def)
    also have "\<dots> = plane x (H - 1 - i) c"
      unfolding pixels_def using lt that(2) by (simp add: ix(1,2))
    finally show ?thesis .
  qed
  have img: "png\<lparr>data := out\<rparr> = \<lparr>width = W, height = H, num_of_channels = 3,
      bytes_per_channel = 1, data = out\<rparr>"
    by (simp add: png_def PrepareImage_def)
  have st: "\<forall>i<H. \<forall>k<W * 3. out ! (W * 3 * i + k) = pixels ! (W * 3 * (H - 1 - i) + k)"
    using out(3) by (simp add: screen_def)
  have "length pixels = W * H * 3" by (simp add: pixels_def)
  moreover have "length out = W * H * 3" using out(2) by (simp add: algebra_simps)
  moreover have "screen_pixels env vis0 do_render = Inr pixels"
    using rd
    by (simp add: screen_pixels_def Let_def vis_def [symmetric] win W_def [symmetric]
        H_def [symmetric] plane_def)
  moreover have "flip_lines \<lparr>width = W, height = H, num_of_channels = 3,
                     bytes_per_channel = 1, data = pixels\<rparr> (PrepareImage W H 3 1)
        = Inr \<lparr>width = W, height = H, num_of_channels = 3,
                bytes_per_channel = 1, data = out\<rparr>"
    using out(1) by (simp add: screen_def png_def PrepareImage_def)
  moreover have "capture_screen_buffers env vis0 do_render
        = Inr (\<lparr>width = W, height = H, num_of_channels = 3,
                 bytes_per_channel = 1, data = pixels\<rparr>,
               \<lparr>width = W, height = H, num_of_channels = 3,
                 bytes_per_channel = 1, data = out\<rparr>, vis)"
    using bufs by (simp add: png_def PrepareImage_def)
  ultimately show ?thesis
    using res st px unfolding img plane_def by blast
qed


lemma read_depth_block_result:
  assumes "width depth_image = W" "height depth_image = H" "length (data depth_image) = W * H"
  shows "read_depth_block depth depth_image
     = Inr (map (\<lambda>k. depth (k mod W) (k div W)) [0..<W * H])"
  using assms by (simp add: read_depth_block_def glReadPixels_whole)

lemma cell_index_eq:
  fixes W :: nat
  assumes "c < W" "j < W" "r * W + c = i * W + j"
  shows "r = i \<and> c = j"
proof -
  have "(r * W + c) div W = r" "(r * W + c) mod W = c" using assms(1) by simp_all
  moreover have "(i * W + j) div W = i" "(i * W + j) mod W = j" using assms(2) by simp_all
  ultimately show ?thesis using assms(3) by metis
qed

lemma cell_index_less:
  fixes W :: nat
  assumes "i < H" "j < W"
  shows "i * W + j < W * H"
proof -
  have "i * W + j < Suc i * W" using assms(2) by simp
  also have "\<dots> \<le> H * W" using assms(1) by (intro mult_le_mono1) simp
  finally show ?thesis by (simp add: mult.commute)
qed

lemma read_depth_columns_result:
  assumes img: "width depth_image = W" "height depth_image = H"
      "length (data depth_image) = W * H"
    and fits: "W \<le> H"
  shows "\<exists>p. read_depth_columns depth depth_image = Inr p \<and> length p = W * H
     \<and> (\<forall>i<H. \<forall>j<W. p ! (i * W + j) = (if i < W then depth j i else 0))"
proof -
  define F where "F c i = (if i < W then depth c i else 0)" for c i
  define P where "P j s \<longleftrightarrow> length (fst s) = H \<and> length (snd s) = W * H
      \<and> (\<forall>i<H. W \<le> i \<longrightarrow> fst s ! i = 0)
      \<and> (\<forall>i<H. \<forall>c<j. snd s ! (i * W + c) = F c i)" for j and s :: "real list \<times> real list"
  define body where "body = (\<lambda>j (float_buffer, p).
      and_then
        (glReadPixels (\<lambda>x y k. depth x y) 1 j 0 1 (width depth_image) float_buffer)
        (\<lambda>float_buffer.
           and_then
             (for_loop [0..<height depth_image]
                (\<lambda>i p. and_then (load float_buffer i)
                          (\<lambda>v. store p (i * width depth_image + j) v))
                p)
             (\<lambda>p. Inr (float_buffer, p))))"
  have step: "\<exists>s'. body j s = Inr s' \<and> P (Suc j) s'" if j: "j < W" and Ps: "P j s" for j s
  proof -
    obtain fb p where s: "s = (fb, p)" by (cases s)
    have fb: "length fb = H" "\<forall>i<H. W \<le> i \<longrightarrow> fb ! i = 0"
      and p: "length p = W * H" "\<forall>i<H. \<forall>c<j. p ! (i * W + c) = F c i"
      using Ps by (simp_all add: P_def s)
    define fb' where "fb' = map (\<lambda>k. depth j k) [0..<W] @ drop W fb"
    have rd: "glReadPixels (\<lambda>x y k. depth x y) 1 j 0 1 W fb = Inr fb'"
      using fits fb(1) by (simp add: glReadPixels_def fb'_def)
    have fb'_len: "length fb' = H" using fits fb(1) by (simp add: fb'_def)
    have fb'_nth: "fb' ! i = F j i" if "i < H" for i
      using that fits fb by (simp add: fb'_def nth_append F_def)
    have fb'_zero: "\<forall>i<H. W \<le> i \<longrightarrow> fb' ! i = 0"
      using fb'_nth by (simp add: F_def)
    define Q where "Q i t \<longleftrightarrow> length t = W * H
        \<and> (\<forall>r<H. \<forall>c<j. t ! (r * W + c) = F c r)
        \<and> (\<forall>r<i. t ! (r * W + j) = F j r)" for i and t :: "real list"
    define inner where "inner = (\<lambda>i p. and_then (load fb' i) (\<lambda>v. store p (i * W + j) v))"
    have "\<exists>t. for_loop [0..<H] inner p = Inr t \<and> Q H t"
    proof (rule for_loop_invariant)
      show "Q 0 p" using p by (simp add: Q_def)
    next
      fix i t
      assume i: "i < H" and Qt: "Q i t"
      have len: "length t = W * H" using Qt by (simp add: Q_def)
      have lt: "i * W + j < W * H" using i j by (rule cell_index_less)
      have run: "inner i t = Inr (t[i * W + j := F j i])"
        using i lt len fb'_len fb'_nth by (simp add: inner_def load_def store_def)
      have "Q (Suc i) (t[i * W + j := F j i])"
        unfolding Q_def
      proof (intro conjI allI impI)
        show "length (t[i * W + j := F j i]) = W * H" using len by simp
      next
        fix r c
        assume r: "r < H" and c: "c < j"
        have "r * W + c \<noteq> i * W + j"
          using cell_index_eq [of c W j r i] c j by auto
        then show "t[i * W + j := F j i] ! (r * W + c) = F c r"
          using Qt r c by (simp add: Q_def)
      next
        fix r
        assume r: "r < Suc i"
        show "t[i * W + j := F j i] ! (r * W + j) = F j r"
        proof (cases "r = i")
          case True
          then show ?thesis using lt len by simp
        next
          case False
          then have "r * W + j \<noteq> i * W + j" using cell_index_eq [of j W j r i] j by auto
          then show ?thesis using Qt r False by (simp add: Q_def)
        qed
      qed
      then show "\<exists>t'. inner i t = Inr t' \<and> Q (Suc i) t'" using run by blast
    qed
    then obtain t where t: "for_loop [0..<H] inner p = Inr t" "Q H t" by blast
    have "body j s = Inr (fb', t)"
      using rd t(1) img by (simp add: body_def s inner_def)
    moreover have "P (Suc j) (fb', t)"
      unfolding P_def
    proof (intro conjI allI impI)
      show "length (fst (fb', t)) = H" using fb'_len by simp
      show "length (snd (fb', t)) = W * H" using t(2) by (simp add: Q_def)
    next
      fix i assume "i < H" "W \<le> i"
      then show "fst (fb', t) ! i = 0" using fb'_zero by simp
    next
      fix i c assume "i < H" "c < Suc j"
      then show "snd (fb', t) ! (i * W + c) = F c i"
        using t(2) by (cases "c = j") (simp_all add: Q_def)
    qed
    ultimately show ?thesis by blast
  qed
  have "\<exists>s. for_loop [0..<W] body (replicate H 0, data depth_image) = Inr s \<and> P W s"
  proof (rule for_loop_invariant)
    show "P 0 (replicate H 0, data depth_image)" using img by (simp add: P_def)
  next
    fix j s assume "j < W" "P j s"
    then show "\<exists>s'. body j s = Inr s' \<and> P (Suc j) s'" by (rule step)
  qed
  then obtain s where s: "for_loop [0..<W] body (replicate H 0, data depth_image) = Inr s"
    "P W s" by blast
  have "read_depth_columns depth depth_image = Inr (snd s)"
    using s(1) img by (simp add: read_depth_columns_def body_def split_beta)
  then show ?thesis using s(2) by (auto simp: P_def F_def)
qed

lemma read_depth_columns_overrun:
  assumes "width depth_image = W" "height depth_image = H" "H < W"
  shows "read_depth_columns depth depth_image = Inl BufferOverrun"
proof -
  have "[0..<W] = 0 # [1..<W]" using assms(3) by (simp add: upt_rec)
  then show ?thesis
    using assms by (simp add: read_depth_columns_def glReadPixels_def)
qed


lemma read_depth_length:
  assumes "read_depth env depth (PrepareImage W H 1 4) = Inr p"
  shows "length p = W * H"
proof (cases "APPLE env")
  case False
  then show ?thesis
    using assms read_depth_block_result [of "PrepareImage W H 1 4" W H depth]
    by (auto simp: read_depth_def PrepareImage_def)
next
  case True
  then have cols: "read_depth_columns depth (PrepareImage W H 1 4) = Inr p"
    using assms by (simp add: read_depth_def)
  have "W \<le> H"
  proof (rule ccontr)
    assume "\<not> W \<le> H"
    then have "H < W" by simp
    then have "read_depth_columns depth (PrepareImage W H 1 4 :: real Image) = Inl BufferOverrun"
      by (intro read_depth_columns_overrun) (simp_all add: PrepareImage_def)
    then show False using cols by simp
  qed
  then show ?thesis
    using cols read_depth_columns_result [of "PrepareImage W H 1 4" W H depth]
    by (auto simp: PrepareImage_def)
qed

lemma CaptureDepthImage_result:
  fixes env :: "('i, 'e) collaborators" and vis0 :: "('i, 'e) Visualizer"
    and do_render :: bool and filename :: string
  defines "vis \<equiv> render_first env vis0 do_render"
  defines "W \<equiv> GetWindowWidth (view_control_ptr vis0)"
  defines "H \<equiv> GetWindowHeight (view_control_ptr vis0)"
  defines "names \<equiv> capture_filenames env ''DepthCapture_'' ''DepthCamera_'' filename"
  assumes kept: "window_kept env (view_control_ptr vis0)"
    and raw: "raw_depth env vis0 do_render = Inr p"
  shows "\<exists>out. CaptureDepthImage env vis0 filename do_render depth_scale
        = Inr (write_capture env (fst names) (snd names)
                 (DepthPng \<lparr>width = W, height = H, num_of_channels = 1,
                            bytes_per_channel = 2, data = out\<rparr>) vis)
     \<and> length out = W * H
     \<and> (\<forall>i<H. \<forall>j<W. out ! (W * i + j)
          = (if p ! (W * (H - 1 - i) + j) = 1 then 0
             else quantize (undefined_conversion env) depth_scale
                    (z_depth (GetZNear (view_control_ptr vis)) (GetZFar (view_control_ptr vis))
                       (p ! (W * (H - 1 - i) + j)))))
     \<and> capture_depth_buffers env vis0 do_render depth_scale
        = Inr (\<lparr>width = W, height = H, num_of_channels = 1,
                 bytes_per_channel = 4, data = p\<rparr>,
               \<lparr>width = W, height = H, num_of_channels = 1,
                 bytes_per_channel = 2, data = out\<rparr>, vis)"
proof -
  define depth_image :: "real Image" where "depth_image = (PrepareImage W H 1 4)\<lparr>data := p\<rparr>"
  define png :: "16 word Image" where "png = PrepareImage W H 1 2"
  have win: "GetWindowWidth (view_control_ptr vis) = W" "GetWindowHeight (view_control_ptr vis) = H"
    unfolding vis_def W_def H_def using render_first_window [OF kept] by simp_all
  have rd: "read_depth env (depth_plane (front_buffer vis)) (PrepareImage W H 1 4) = Inr p"
    using raw by (simp add: raw_depth_def vis_def W_def H_def)
  have len: "length p = W * H" using rd by (rule read_depth_length)
  have "\<exists>out. convert_depth (undefined_conversion env) (GetZNear (view_control_ptr vis))
          (GetZFar (view_control_ptr vis)) depth_scale depth_image png = Inr (png\<lparr>data := out\<rparr>)
     \<and> length out = W * H
     \<and> (\<forall>i<H. \<forall>j<W. out ! (W * i + j)
          = (if data depth_image ! (W * (H - 1 - i) + j) = 1 then data png ! (W * i + j)
             else quantize (undefined_conversion env) depth_scale
                    (z_depth (GetZNear (view_control_ptr vis)) (GetZFar (view_control_ptr vis))
                       (data depth_image ! (W * (H - 1 - i) + j)))))"
    by (rule convert_depth_result)
      (simp_all add: depth_image_def png_def PrepareImage_def len)
  then obtain out where out:
    "convert_depth (undefined_conversion env) (GetZNear (view_control_ptr vis))
          (GetZFar (view_control_ptr vis)) depth_scale depth_image png = Inr (png\<lparr>data := out\<rparr>)"
    "length out = W * H"
    "\<forall>i<H. \<forall>j<W. out ! (W * i + j)
          = (if data depth_image ! (W * (H - 1 - i) + j) = 1 then data png ! (W * i + j)
             else quantize (undefined_conversion env) depth_scale
                    (z_depth (GetZNear (view_control_ptr vis)) (GetZFar (view_control_ptr vis))
                       (data depth_image ! (W * (H - 1 - i) + j))))"
    by blast
  have bufs: "capture_depth_buffers env vis0 do_render depth_scale
      = Inr ((PrepareImage W H 1 4)\<lparr>data := p\<rparr>, png\<lparr>data := out\<rparr>, vis)"
    unfolding capture_depth_buffers_def
    using rd out(1) [unfolded depth_image_def png_def]
    by (simp add: Let_def vis_def [symmetric] win W_def [symmetric]
        H_def [symmetric] png_def)
  have res: "CaptureDepthImage env vis0 filename do_render depth_scale
      = Inr (write_capture env (fst names) (snd names) (DepthPng (png\<lparr>data := out\<rparr>)) vis)"
    unfolding CaptureDepthImage_def
    by (simp add: bufs split_beta names_def [symmetric])
  have zero: "data png ! (W * i + j) = 0" if "i < H" "j < W" for i j
  proof -
    have "i * W + j < W * H" using that by (rule cell_index_less)
    then show ?thesis by (simp add: png_def PrepareImage_def mult.commute)
  qed
  have img: "png\<lparr>data := out\<rparr> = \<lparr>width = W, height = H, num_of_channels = 1,
      bytes_per_channel = 2, data = out\<rparr>"
    by (simp add: png_def PrepareImage_def)
  have "capture_depth_buffers env vis0 do_render depth_scale
        = Inr (\<lparr>width = W, height = H, num_of_channels = 1,
                 bytes_per_channel = 4, data = p\<rparr>,
               \<lparr>width = W, height = H, num_of_channels = 1,
                 bytes_per_channel = 2, data = out\<rparr>, vis)"
    using bufs by (simp add: png_def PrepareImage_def)
  then show ?thesis using res out(2,3) zero unfolding img by (auto simp: depth_image_def)
qed

lemma line_length:
  assumes "i < h" "length xs = b * h"
  shows "length (line b xs i) = b"
proof -
  have "b * i + b = b * Suc i" by simp
  also have "\<dots> \<le> b * h" using assms(1) by (intro mult_le_mono2) simp
  finally show ?thesis using assms(2) by (simp add: line_def)
qed

lemma line_nth:
  assumes "i < h" "length xs = b * h" "k < b"
  shows "line b xs i ! k = xs ! (b * i + k)"
proof -
  have "b * i + k < b * h" using assms(1,3) by (rule block_index_less)
  then show ?thesis using assms by (simp add: line_def)
qed

lemma lines_eqI:
  assumes "i < h" "r < h" "length xs = b * h" "length ys = b * h"
    and "\<And>k. k < b \<Longrightarrow> xs ! (b * i + k) = ys ! (b * r + k)"
  shows "line b xs i = line b ys r"
proof (rule nth_equalityI)
  show "length (line b xs i) = length (line b ys r)"
    using assms(1-4) by (simp add: line_length)
next
  fix k assume "k < length (line b xs i)"
  then have "k < b" using assms(1,3) by (simp add: line_length)
  then show "line b xs i ! k = line b ys r ! k"
    using assms by (simp add: line_nth)
qed

lemma flip_lines_twice:
  assumes img: "length (data img) = BytesPerLine img * height img"
    and a: "BytesPerLine a = BytesPerLine img" "height a = height img"
      "length (data a) = BytesPerLine img * height img"
    and b: "length (data b) = BytesPerLine img * height img"
  shows "\<exists>out. flip_lines img a = Inr (a\<lparr>data := out\<rparr>)
     \<and> flip_lines (a\<lparr>data := out\<rparr>) b = Inr (b\<lparr>data := data img\<rparr>)"
proof -
  define n where "n = BytesPerLine img"
  define h where "h = height img"
  from flip_lines_result [OF img a(3)] obtain out where out:
    "flip_lines img a = Inr (a\<lparr>data := out\<rparr>)" "length out = n * h"
    "\<forall>i<h. \<forall>k<n. out ! (n * i + k) = data img ! (n * (h - 1 - i) + k)"
    unfolding n_def h_def by blast
  define a' where "a' = a\<lparr>data := out\<rparr>"
  have a': "BytesPerLine a' = n" "height a' = h" "data a' = out"
    using a by (simp_all add: a'_def BytesPerLine_def n_def h_def)
  have "length (data a') = BytesPerLine a' * height a'"
    and "length (data b) = BytesPerLine a' * height a'"
    using out(2) b by (simp_all add: a' n_def h_def)
  from flip_lines_result [OF this] obtain out2 where out2:
    "flip_lines a' b = Inr (b\<lparr>data := out2\<rparr>)" "length out2 = n * h"
    "\<forall>i<h. \<forall>k<n. out2 ! (n * i + k) = out ! (n * (h - 1 - i) + k)"
    unfolding a' by blast
  have "out2 = data img"
  proof (rule nth_equalityI)
    show "length out2 = length (data img)" using out2(2) img by (simp add: n_def h_def)
  next
    fix m assume "m < length out2"
    then have m: "m < n * h" using out2(2) by simp
    then have n0: "0 < n" by (cases n) simp_all
    define i where "i = m div n"
    define k where "k = m mod n"
    have k: "k < n" using n0 by (simp add: k_def)
    have i: "i < h" using m n0 by (simp add: i_def less_mult_imp_div_less mult.commute)
    have m_eq: "m = n * i + k" by (simp add: i_def k_def)
    have twice: "h - 1 - (h - 1 - i) = i" using i by simp
    have "out2 ! m = out ! (n * (h - 1 - i) + k)" using out2(3) i k m_eq by simp
    also have "\<dots> = data img ! (n * (h - 1 - (h - 1 - i)) + k)"
      using out(3) i k by simp
    finally show "out2 ! m = data img ! m" using twice m_eq by simp
  qed
  then show ?thesis using out(1) out2(1) by (auto simp: a'_def)
qed

lemma upt_small: "[0..<1] = [0]" "[0..<2] = [0, 1]"
  by (simp_all add: upt_rec)

lemma replicate_small: "replicate 2 x = [x, x]" "replicate 6 x = [x, x, x, x, x, x]"
  by (simp_all add: numeral_eq_Suc)

lemmas example_defs = example_env_def example_vis_def example_frame_def empty_frame_def

lemma example_window_kept: "window_kept example_env (view_control_ptr example_vis)"
  by (simp add: window_kept_def example_defs)

lemma example_raw_depth: "raw_depth example_env example_vis True = Inr [1 / 2, 1]"
  by (simp add: raw_depth_def read_depth_def read_depth_block_def glReadPixels_def
      render_first_def Render_def PrepareImage_def example_defs upt_small replicate_small)

lemma example_rendered:
  "render_first example_env example_vis True
     = example_vis\<lparr>front_buffer := example_frame, is_redraw_required := False\<rparr>"
  by (simp add: render_first_def Render_def example_defs)

lemma lines_mapI:
  assumes "i < h" "r < h" "length xs = b * h" "length ys = b * h"
    and "\<And>k. k < b \<Longrightarrow> xs ! (b * i + k) = f (ys ! (b * r + k))"
  shows "line b xs i = map f (line b ys r)"
proof (rule nth_equalityI)
  show "length (line b xs i) = length (map f (line b ys r))"
    using assms(1-4) by (simp add: line_length)
next
  fix k assume "k < length (line b xs i)"
  then have "k < b" using assms(1,3) by (simp add: line_length)
  then show "line b xs i ! k = map f (line b ys r) ! k"
    using assms by (simp add: line_nth line_length)
qed

lemma all_less_2: "(\<forall>k<2. P k) \<longleftrightarrow> P 0 \<and> P (1::nat)"
  by (auto simp: less_2_cases_iff)

lemma word16_le_int16_max:
  assumes "0 \<le> n" "n \<le> 65535"
  shows "(word_of_int n :: 16 word) \<le> 32767 \<longleftrightarrow> n \<le> 32767"
proof -
  have "uint (word_of_int n :: 16 word) = n"
    using assms by (simp add: uint_word_of_int take_bit_eq_mod)
  then show ?thesis by (simp add: word_le_def)
qed

lemma quantize_defined_range:
  assumes "dbl_times (Fin depth_scale) z = Fin x" "0 \<le> x" "n = \<lfloor>x + 1 / 2\<rfloor>" "n \<le> 65535"
  shows "quantize ub depth_scale z = word_of_int (min n 32767)"
proof -
  have n0: "0 \<le> n" using assms(2,3) by simp
  have "to_uint16 ub (std_round (dbl_times (Fin depth_scale) z)) = word_of_int n"
    using assms n0 by (simp add: trunc_def)
  then show ?thesis
    using word16_le_int16_max [OF n0 assms(4)]
    by (auto simp: quantize_def INT16_MAX_def min_def)
qed

lemma read_depth_columns_square:
  assumes "width depth_image = W" "height depth_image = W"
      "length (data depth_image) = W * W"
  shows "read_depth_columns depth depth_image = read_depth_block depth depth_image"
proof -
  from read_depth_columns_result [OF assms, of depth] obtain p where p:
    "read_depth_columns depth depth_image = Inr p" "length p = W * W"
    "\<forall>i<W. \<forall>j<W. p ! (i * W + j) = (if i < W then depth j i else 0)"
    by auto
  have "p = map (\<lambda>k. depth (k mod W) (k div W)) [0..<W * W]"
  proof (rule nth_equalityI)
    show "length p = length (map (\<lambda>k. depth (k mod W) (k div W)) [0..<W * W])"
      using p(2) by simp
  next
    fix k assume "k < length p"
    then have k: "k < W * W" using p(2) by simp
    then have W0: "0 < W" by (cases W) simp_all
    have i: "k div W < W" using k W0 by (simp add: less_mult_imp_div_less)
    have j: "k mod W < W" using W0 by simp
    have "p ! (k div W * W + k mod W) = (if k div W < W then depth (k mod W) (k div W) else 0)"
      using p(3) [rule_format, OF i j] .
    then have "p ! (k div W * W + k mod W) = depth (k mod W) (k div W)"
      using i by (simp only: if_True)
    then show "p ! k = map (\<lambda>k. depth (k mod W) (k div W)) [0..<W * W] ! k"
      using k by simp
  qed
  then show ?thesis
    using p(1) read_depth_block_result [OF assms, of depth] by simp
qed

text \<open>
  When a depth capture has a raw depth image: always with the block read; with the
  column-wise read when the window is not wider than it is high.
\<close>

lemma raw_depth_block:
  assumes "\<not> APPLE env"
  shows "raw_depth env vis0 do_render
     = Inr (map (\<lambda>k. depth_plane (front_buffer (render_first env vis0 do_render))
                       (k mod GetWindowWidth (view_control_ptr vis0))
                       (k div GetWindowWidth (view_control_ptr vis0)))
              [0..<GetWindowWidth (view_control_ptr vis0) * GetWindowHeight (view_control_ptr vis0)])"
  using assms
  by (simp add: raw_depth_def read_depth_def read_depth_block_result PrepareImage_def)

lemma raw_depth_columns:
  fixes env :: "('i, 'e) collaborators" and vis0 :: "('i, 'e) Visualizer" and do_render :: bool
  assumes "APPLE env"
  defines "W \<equiv> GetWindowWidth (view_control_ptr vis0)"
  defines "H \<equiv> GetWindowHeight (view_control_ptr vis0)"
  defines "depth \<equiv> depth_plane (front_buffer (render_first env vis0 do_render))"
  shows "W \<le> H \<Longrightarrow> \<exists>p. raw_depth env vis0 do_render = Inr p
           \<and> (\<forall>i<H. \<forall>j<W. p ! (i * W + j) = (if i < W then depth j i else 0))"
    and "H < W \<Longrightarrow> raw_depth env vis0 do_render = Inl BufferOverrun"
proof -
  have eq: "raw_depth env vis0 do_render = read_depth_columns depth (PrepareImage W H 1 4)"
    using assms(1) by (simp add: raw_depth_def read_depth_def W_def H_def depth_def)
  show "\<exists>p. raw_depth env vis0 do_render = Inr p
           \<and> (\<forall>i<H. \<forall>j<W. p ! (i * W + j) = (if i < W then depth j i else 0))"
    if "W \<le> H"
    using read_depth_columns_result [of "PrepareImage W H 1 4" W H depth] that
    unfolding eq by (auto simp: PrepareImage_def)
  show "raw_depth env vis0 do_render = Inl BufferOverrun" if "H < W"
    unfolding eq using that
    by (intro read_depth_columns_overrun) (simp_all add: PrepareImage_def)
qed

lemma capture_depth_fault:
  assumes "raw_depth env vis0 do_render = Inl e"
  shows "capture_depth_buffers env vis0 do_render depth_scale = Inl e"
    and "CaptureDepthImage env vis0 filename do_render depth_scale = Inl e"
proof -
  show b: "capture_depth_buffers env vis0 do_render depth_scale = Inl e"
    using assms by (simp add: capture_depth_buffers_def raw_depth_def Let_def)
  show "CaptureDepthImage env vis0 filename do_render depth_scale = Inl e"
    by (simp add: CaptureDepthImage_def b split_beta)
qed

section \<open>Properties\<close>







text \<open>
  C3. In a depth capture, the sample written for a pixel whose raw depth \<open>d\<close> is not 1.0
  is the quantization of the depth \<open>2 * z_near * z_far / (z_far + z_near - (2 * d - 1) *
  (z_far - z_near))\<close>, computed in double arithmetic with the operations in the order of
  the source, with the near and far clip distances that the view control has after the
  render of the capture. Pixel \<open>j\<close> of output line \<open>i\<close> is read from pixel \<open>j\<close> of
  line \<open>H - 1 - i\<close> of the raw depth image.
\<close>

theorem reconstructed_depth_formula:
  fixes env :: "('i, 'e) collaborators" and vis0 :: "('i, 'e) Visualizer"
    and do_render :: bool and filename :: string
  defines "vis \<equiv> render_first env vis0 do_render"
  defines "W \<equiv> GetWindowWidth (view_control_ptr vis0)"
  defines "H \<equiv> GetWindowHeight (view_control_ptr vis0)"
  defines "z_near \<equiv> Fin (GetZNear (view_control_ptr vis))"
  defines "z_far \<equiv> Fin (GetZFar (view_control_ptr vis))"
  defines "names \<equiv> capture_filenames env ''DepthCapture_'' ''DepthCamera_'' filename"
  assumes kept: "window_kept env (view_control_ptr vis0)"
    and raw: "raw_depth env vis0 do_render = Inr p"
    and pixel: "i < H" "j < W"
    and d: "p ! (W * (H - 1 - i) + j) = d" "d \<noteq> 1"
  shows "\<exists>out. CaptureDepthImage env vis0 filename do_render depth_scale
            = Inr (write_capture env (fst names) (snd names)
                     (DepthPng \<lparr>width = W, height = H, num_of_channels = 1,
                                bytes_per_channel = 2, data = out\<rparr>) vis)
          \<and> out ! (W * i + j)
            = min (to_uint16 (undefined_conversion env)
                     (std_round
                        (dbl_times (Fin depth_scale)
                           (dbl_divide (dbl_times (dbl_times (Fin 2) z_near) z_far)
                              (dbl_minus (dbl_plus z_far z_near)
                                 (dbl_times (dbl_minus (dbl_times (Fin 2) (Fin d)) (Fin 1))
                                    (dbl_minus z_far z_near)))))))
                32767"
proof -
  from CaptureDepthImage_result [OF kept raw, of filename depth_scale]
  obtain out where out:
    "CaptureDepthImage env vis0 filename do_render depth_scale
        = Inr (write_capture env (fst names) (snd names)
                 (DepthPng \<lparr>width = W, height = H, num_of_channels = 1,
                            bytes_per_channel = 2, data = out\<rparr>) vis)"
    "\<forall>i<H. \<forall>j<W. out ! (W * i + j)
          = (if p ! (W * (H - 1 - i) + j) = 1 then 0
             else quantize (undefined_conversion env) depth_scale
                    (z_depth (GetZNear (view_control_ptr vis)) (GetZFar (view_control_ptr vis))
                       (p ! (W * (H - 1 - i) + j))))"
    unfolding vis_def W_def H_def names_def by blast
  have "out ! (W * i + j) = quantize (undefined_conversion env) depth_scale
      (z_depth (GetZNear (view_control_ptr vis)) (GetZFar (view_control_ptr vis)) d)"
    using out(2) pixel d by simp
  then have "out ! (W * i + j)
      = min (to_uint16 (undefined_conversion env)
               (std_round
                  (dbl_times (Fin depth_scale)
                     (dbl_divide (dbl_times (dbl_times (Fin 2) z_near) z_far)
                        (dbl_minus (dbl_plus z_far z_near)
                           (dbl_times (dbl_minus (dbl_times (Fin 2) (Fin d)) (Fin 1))
                              (dbl_minus z_far z_near)))))))
          32767"
    by (simp only: quantize_def z_depth_def depth_denominator_def z_near_def z_far_def
        INT16_MAX_def) simp
  then show ?thesis using out(1) by blast
qed

lemma rounding_z_depth: "z_depth 1 3 (1 / 8) = Fin (1228254443828317 / 1125899906842624)"
proof -
  have a: "rnd64 (1 / 4) = Fin (1 / 4)"
    by (simp add: rnd64_binade [of "- 2"] round_half_even_def)
  have b: "rnd64 (- (3 / 4)) = Fin (- (3 / 4))"
    by (simp add: rnd64_binade [of "- 1"] round_half_even_def)
  have c: "rnd64 (- (3 / 2)) = Fin (- (3 / 2))"
    by (simp add: rnd64_binade [of 0] round_half_even_def)
  have d: "rnd64 (11 / 2) = Fin (11 / 2)"
    by (simp add: rnd64_binade [of 2] round_half_even_def)
  have e: "rnd64 (12 / 11) = Fin (1228254443828317 / 1125899906842624)"
    by (simp add: rnd64_binade [of 0] round_half_even_def)
  show ?thesis
    using a b c d e
    by (simp add: z_depth_def depth_denominator_def dbl_minus_def rnd64_numeral)
qed

lemma rounding_sample:
  "quantize ub (55 / 8) (Fin (1228254443828317 / 1125899906842624)) = 7"
proof -
  have "rnd64 (55 / 8 * (1228254443828317 / 1125899906842624))
      = Fin (8444249301319679 / 1125899906842624)"
    by (simp add: rnd64_binade [of 2] round_half_even_def)
  then show ?thesis by (simp add: quantize_def trunc_def INT16_MAX_def)
qed

theorem reconstructed_depth_formula_witness:
  "window_kept example_env (view_control_ptr rounding_vis)
   \<and> raw_depth example_env rounding_vis False = Inr [1 / 8]
   \<and> z_depth 1 3 (1 / 8) = Fin (1228254443828317 / 1125899906842624)
   \<and> (\<exists>out. CaptureDepthImage example_env rounding_vis ''depth.png'' False (55 / 8)
          = Inr (write_capture example_env ''depth.png'' []
                   (DepthPng \<lparr>width = 1, height = 1, num_of_channels = 1,
                              bytes_per_channel = 2, data = out\<rparr>)
                   rounding_vis)
        \<and> out ! 0 = 7)"
proof -
  have kept: "window_kept example_env (view_control_ptr rounding_vis)"
    by (simp add: window_kept_def example_defs rounding_vis_def)
  have raw: "raw_depth example_env rounding_vis False = Inr [1 / 8]"
    by (simp add: raw_depth_def read_depth_def read_depth_block_def glReadPixels_def
        render_first_def PrepareImage_def example_defs rounding_vis_def upt_small)
  have i: "0 < GetWindowHeight (view_control_ptr rounding_vis)"
    and j: "0 < GetWindowWidth (view_control_ptr rounding_vis)"
    by (simp_all add: rounding_vis_def)
  have d: "[1 / 8] ! (GetWindowWidth (view_control_ptr rounding_vis)
        * (GetWindowHeight (view_control_ptr rounding_vis) - 1 - 0) + 0) = (1 / 8 :: real)"
    "(1 / 8 :: real) \<noteq> 1"
    by (simp_all add: rounding_vis_def)
  have W: "GetWindowWidth (view_control_ptr rounding_vis) = 1"
    and H: "GetWindowHeight (view_control_ptr rounding_vis) = 1"
    and n: "capture_filenames example_env ''DepthCapture_'' ''DepthCamera_'' ''depth.png''
        = (''depth.png'', [])"
    and v: "render_first example_env rounding_vis False = rounding_vis"
    and z: "GetZNear (view_control_ptr rounding_vis) = 1"
      "GetZFar (view_control_ptr rounding_vis) = 3"
    and u: "undefined_conversion example_env = low16"
    by (simp_all add: example_defs rounding_vis_def capture_filenames_def render_first_def)
  note c = reconstructed_depth_formula [OF kept raw i j d, of "''depth.png''" "55 / 8",
      unfolded W H n v z u fst_conv snd_conv]
  have q: "min (to_uint16 low16
                 (std_round
                    (dbl_times (Fin (55 / 8))
                       (dbl_divide (dbl_times (dbl_times (Fin 2) (Fin 1)) (Fin 3))
                          (dbl_minus (dbl_plus (Fin 3) (Fin 1))
                             (dbl_times (dbl_minus (dbl_times (Fin 2) (Fin (1 / 8))) (Fin 1))
                                (dbl_minus (Fin 3) (Fin 1))))))))
             32767 = 7"
    using rounding_z_depth rounding_sample [of low16]
    by (simp add: quantize_def z_depth_def depth_denominator_def INT16_MAX_def)
  from c obtain out where
    "CaptureDepthImage example_env rounding_vis ''depth.png'' False (55 / 8)
          = Inr (write_capture example_env ''depth.png'' []
                   (DepthPng \<lparr>width = 1, height = 1, num_of_channels = 1,
                              bytes_per_channel = 2, data = out\<rparr>)
                   rounding_vis)"
    "out ! (1 * 0 + 0) = 7"
    unfolding q by blast
  then show ?thesis using kept raw rounding_z_depth by auto
qed

text \<open>
  C4. In a depth capture, a pixel whose raw depth sample is exactly 1.0 has the value 0 in
  the 16-bit image that is written, whatever the clip distances and the depth scale are;
  the capture ends without a fault.
\<close>

theorem no_hit_pixel_is_zero:
  fixes env :: "('i, 'e) collaborators" and vis0 :: "('i, 'e) Visualizer"
    and do_render :: bool and filename :: string
  defines "vis \<equiv> render_first env vis0 do_render"
  defines "W \<equiv> GetWindowWidth (view_control_ptr vis0)"
  defines "H \<equiv> GetWindowHeight (view_control_ptr vis0)"
  defines "names \<equiv> capture_filenames env ''DepthCapture_'' ''DepthCamera_'' filename"
  assumes kept: "window_kept env (view_control_ptr vis0)"
    and raw: "raw_depth env vis0 do_render = Inr p"
    and pixel: "i < H" "j < W"
    and d: "p ! (W * (H - 1 - i) + j) = 1"
  shows "\<exists>out. CaptureDepthImage env vis0 filename do_render depth_scale
            = Inr (write_capture env (fst names) (snd names)
                     (DepthPng \<lparr>width = W, height = H, num_of_channels = 1,
                                bytes_per_channel = 2, data = out\<rparr>) vis)
          \<and> out ! (W * i + j) = 0"
proof -
  from CaptureDepthImage_result [OF kept raw, of filename depth_scale]
  obtain out where out:
    "CaptureDepthImage env vis0 filename do_render depth_scale
        = Inr (write_capture env (fst names) (snd names)
                 (DepthPng \<lparr>width = W, height = H, num_of_channels = 1,
                            bytes_per_channel = 2, data = out\<rparr>) vis)"
    "\<forall>i<H. \<forall>j<W. out ! (W * i + j)
          = (if p ! (W * (H - 1 - i) + j) = 1 then 0
             else quantize (undefined_conversion env) depth_scale
                    (z_depth (GetZNear (view_control_ptr vis)) (GetZFar (view_control_ptr vis))
                       (p ! (W * (H - 1 - i) + j))))"
    unfolding vis_def W_def H_def names_def by blast
  have "out ! (W * i + j) = 0" using out(2) pixel d by simp
  then show ?thesis using out(1) by blast
qed

theorem no_hit_pixel_is_zero_witness:
  "window_kept example_env (view_control_ptr example_vis)
   \<and> raw_depth example_env example_vis True = Inr [1 / 2, 1]
   \<and> (\<exists>out. CaptureDepthImage example_env example_vis ''depth.png'' True 100
          = Inr (write_capture example_env ''depth.png'' []
                   (DepthPng \<lparr>width = 1, height = 2, num_of_channels = 1,
                              bytes_per_channel = 2, data = out\<rparr>)
                   (render_first example_env example_vis True))
        \<and> out ! 0 = 0)"
proof -
  have i: "0 < GetWindowHeight (view_control_ptr example_vis)"
    and j: "0 < GetWindowWidth (view_control_ptr example_vis)"
    by (simp_all add: example_defs)
  have d: "[1 / 2, 1] ! (GetWindowWidth (view_control_ptr example_vis)
        * (GetWindowHeight (view_control_ptr example_vis) - 1 - 0) + 0) = (1 :: real)"
    by (simp add: example_defs)
  note c = no_hit_pixel_is_zero [OF example_window_kept example_raw_depth i j d,
      of "''depth.png''" 100]
  from c show ?thesis
    using example_window_kept example_raw_depth
    by (simp add: example_rendered capture_filenames_def)
      (simp add: example_defs)
qed

lemma quantize_le: "quantize ub depth_scale z \<le> 32767"
  by (simp add: quantize_def INT16_MAX_def)

text \<open>
  C9. Every sample of the 16-bit depth image is at most 32767: the sample computed for a
  pixel is at most 32767 for every depth scale and every reconstructed depth, finite or
  not, and whatever an undefined conversion to \<open>uint16_t\<close> gives; so is every sample of
  the image that a depth capture writes.
\<close>

theorem depth_samples_at_most_int16_max:
  fixes env :: "('i, 'e) collaborators" and vis0 :: "('i, 'e) Visualizer"
    and do_render :: bool and filename :: string
  defines "vis \<equiv> render_first env vis0 do_render"
  defines "W \<equiv> GetWindowWidth (view_control_ptr vis0)"
  defines "H \<equiv> GetWindowHeight (view_control_ptr vis0)"
  defines "names \<equiv> capture_filenames env ''DepthCapture_'' ''DepthCamera_'' filename"
  assumes kept: "window_kept env (view_control_ptr vis0)"
    and raw: "raw_depth env vis0 do_render = Inr p"
  shows "quantize ub scale z \<le> 32767
     \<and> (\<exists>out. CaptureDepthImage env vis0 filename do_render depth_scale
            = Inr (write_capture env (fst names) (snd names)
                     (DepthPng \<lparr>width = W, height = H, num_of_channels = 1,
                                bytes_per_channel = 2, data = out\<rparr>) vis)
          \<and> length out = W * H
          \<and> (\<forall>k<W * H. out ! k \<le> 32767))"
proof -
  from CaptureDepthImage_result [OF kept raw, of filename depth_scale]
  obtain out where out:
    "CaptureDepthImage env vis0 filename do_render depth_scale
        = Inr (write_capture env (fst names) (snd names)
                 (DepthPng \<lparr>width = W, height = H, num_of_channels = 1,
                            bytes_per_channel = 2, data = out\<rparr>) vis)"
    "length out = W * H"
    "\<forall>i<H. \<forall>j<W. out ! (W * i + j)
          = (if p ! (W * (H - 1 - i) + j) = 1 then 0
             else quantize (undefined_conversion env) depth_scale
                    (z_depth (GetZNear (view_control_ptr vis)) (GetZFar (view_control_ptr vis))
                       (p ! (W * (H - 1 - i) + j))))"
    unfolding vis_def W_def H_def names_def by blast
  have "out ! k \<le> 32767" if k: "k < W * H" for k
  proof -
    have W0: "0 < W" using k by (cases W) simp_all
    have i: "k div W < H" using k W0 by (simp add: less_mult_imp_div_less mult.commute)
    have j: "k mod W < W" using W0 by simp
    have "out ! (W * (k div W) + k mod W) \<le> 32767"
      using out(3) [rule_format, OF i j] by (simp only: quantize_le split: if_split) simp
    then show ?thesis by simp
  qed
  then show ?thesis using out(1,2) quantize_le by blast
qed

theorem depth_samples_at_most_int16_max_witness:
  "window_kept example_env (view_control_ptr example_vis)
   \<and> raw_depth example_env example_vis True = Inr [1 / 2, 1]
   \<and> quantize low16 1000 (Fin 75) = 9464
   \<and> (\<exists>out. CaptureDepthImage example_env example_vis ''depth.png'' True 1000
          = Inr (write_capture example_env ''depth.png'' []
                   (DepthPng \<lparr>width = 1, height = 2, num_of_channels = 1,
                              bytes_per_channel = 2, data = out\<rparr>)
                   (render_first example_env example_vis True))
        \<and> length out = 2 \<and> out ! 0 \<le> 32767 \<and> out ! 1 \<le> 32767)"
proof -
  note c = depth_samples_at_most_int16_max [OF example_window_kept example_raw_depth,
      of low16 1000 "Fin 75" "''depth.png''" 1000]
  have q: "quantize low16 1000 (Fin 75) = 9464"
    by (simp add: quantize_def trunc_def INT16_MAX_def rnd64_numeral)
  from c show ?thesis
    using example_window_kept example_raw_depth q
    by (simp add: example_rendered capture_filenames_def)
      (simp add: example_defs all_less_2)
qed


lemma files_render_first: "files (render_first env vis do_render) = files vis"
  by (simp add: render_first_def Render_def Let_def)

lemma files_write_capture:
  "files (write_capture env png_filename camera_filename png vis)
     = files vis @ (png_filename, png)
         # (if camera_filename = [] then []
            else [(camera_filename,
                   CameraJson \<lparr>intrinsic = fst (ConvertToPinholeCameraParameters env (view_control_ptr vis)),
                               extrinsic = [snd (ConvertToPinholeCameraParameters env (view_control_ptr vis))]\<rparr>)])"
  by (simp add: write_capture_def write_camera_def WriteFile_def Let_def split_beta)

text \<open>
  C7. Called with an empty file name, a capture writes the image file
  \<open>ScreenCapture_<timestamp>.png\<close> (for the depth capture \<open>DepthCapture_<timestamp>.png\<close>)
  and then the camera file \<open>ScreenCamera_<timestamp>.json\<close> (\<open>DepthCamera_<timestamp>.json\<close>)
  with the same time stamp, holding the one-pose trajectory of the view control after the
  render; called with a file name, it writes the image file of that name and nothing else.
\<close>

theorem files_written_by_capture:
  fixes env :: "('i, 'e) collaborators" and vis0 :: "('i, 'e) Visualizer"
    and do_render :: bool and filename :: string
  defines "vis \<equiv> render_first env vis0 do_render"
  defines "timestamp \<equiv> GetCurrentTimeStamp env"
  defines "camera \<equiv>
     CameraJson \<lparr>intrinsic = fst (ConvertToPinholeCameraParameters env (view_control_ptr vis)),
                 extrinsic = [snd (ConvertToPinholeCameraParameters env (view_control_ptr vis))]\<rparr>"
  assumes kept: "window_kept env (view_control_ptr vis0)"
    and raw: "raw_depth env vis0 do_render = Inr p"
  shows "(\<exists>vis' png. CaptureScreenImage env vis0 filename do_render = Inr vis'
            \<and> files vis' = files vis0 @
                (if filename = []
                 then [(''ScreenCapture_'' @ timestamp @ ''.png'', ColorPng png),
                       (''ScreenCamera_'' @ timestamp @ ''.json'', camera)]
                 else [(filename, ColorPng png)]))
       \<and> (\<exists>vis' png. CaptureDepthImage env vis0 filename do_render depth_scale = Inr vis'
            \<and> files vis' = files vis0 @
                (if filename = []
                 then [(''DepthCapture_'' @ timestamp @ ''.png'', DepthPng png),
                       (''DepthCamera_'' @ timestamp @ ''.json'', camera)]
                 else [(filename, DepthPng png)]))"
proof (intro conjI)
  from CaptureScreenImage_result [OF kept, of do_render filename]
  obtain png where "CaptureScreenImage env vis0 filename do_render
      = Inr (write_capture env
               (fst (capture_filenames env ''ScreenCapture_'' ''ScreenCamera_'' filename))
               (snd (capture_filenames env ''ScreenCapture_'' ''ScreenCamera_'' filename))
               (ColorPng png) vis)"
    unfolding vis_def by blast
  then show "\<exists>vis' png. CaptureScreenImage env vis0 filename do_render = Inr vis'
            \<and> files vis' = files vis0 @
                (if filename = []
                 then [(''ScreenCapture_'' @ timestamp @ ''.png'', ColorPng png),
                       (''ScreenCamera_'' @ timestamp @ ''.json'', camera)]
                 else [(filename, ColorPng png)])"
    by (simp add: files_write_capture capture_filenames_def files_render_first vis_def
        timestamp_def camera_def Let_def)
next
  from CaptureDepthImage_result [OF kept raw, of filename depth_scale]
  obtain png where "CaptureDepthImage env vis0 filename do_render depth_scale
      = Inr (write_capture env
               (fst (capture_filenames env ''DepthCapture_'' ''DepthCamera_'' filename))
               (snd (capture_filenames env ''DepthCapture_'' ''DepthCamera_'' filename))
               (DepthPng png) vis)"
    unfolding vis_def by blast
  then show "\<exists>vis' png. CaptureDepthImage env vis0 filename do_render depth_scale = Inr vis'
            \<and> files vis' = files vis0 @
                (if filename = []
                 then [(''DepthCapture_'' @ timestamp @ ''.png'', DepthPng png),
                       (''DepthCamera_'' @ timestamp @ ''.json'', camera)]
                 else [(filename, DepthPng png)])"
    by (simp add: files_write_capture capture_filenames_def files_render_first vis_def
        timestamp_def camera_def Let_def)
qed

theorem files_written_by_capture_witness:
  "window_kept example_env (view_control_ptr example_vis)
   \<and> raw_depth example_env example_vis True = Inr [1 / 2, 1]
   \<and> (\<exists>vis' png. CaptureScreenImage example_env example_vis [] True = Inr vis'
          \<and> files vis' = [(''ScreenCapture_2016-06-01-12-00-00.png'', ColorPng png),
                (''ScreenCamera_2016-06-01-12-00-00.json'',
                 CameraJson \<lparr>intrinsic = (1, 2), extrinsic = [(50, 150)]\<rparr>)])
   \<and> (\<exists>vis' png. CaptureDepthImage example_env example_vis [] True 1000 = Inr vis'
          \<and> files vis' = [(''DepthCapture_2016-06-01-12-00-00.png'', DepthPng png),
                (''DepthCamera_2016-06-01-12-00-00.json'',
                 CameraJson \<lparr>intrinsic = (1, 2), extrinsic = [(50, 150)]\<rparr>)])"
proof -
  note c = files_written_by_capture [OF example_window_kept example_raw_depth, of "[]" 1000]
  from c show ?thesis
    using example_window_kept example_raw_depth
    by (simp add: example_rendered) (simp add: example_defs)
qed

text \<open>
  C5. Both captures write the vertical flip of what they read from the framebuffer. In
  the screen capture, line \<open>i\<close> of the image written is, byte for byte, line
  \<open>H - 1 - i\<close> of the pixels read; the flip of the source maps the pixels read to the
  image written and the image written back to the pixels read, so flipping twice gives
  the image back. In the depth capture, line \<open>i\<close> of the image written is line
  \<open>H - 1 - i\<close> of the raw depth image, each sample converted.
\<close>

theorem captured_image_is_vertical_flip:
  fixes env :: "('i, 'e) collaborators" and vis0 :: "('i, 'e) Visualizer"
    and do_render :: bool and filename :: string and depth_scale :: real
  defines "vis \<equiv> render_first env vis0 do_render"
  defines "W \<equiv> GetWindowWidth (view_control_ptr vis0)"
  defines "H \<equiv> GetWindowHeight (view_control_ptr vis0)"
  defines "screen_names \<equiv> capture_filenames env ''ScreenCapture_'' ''ScreenCamera_'' filename"
  defines "depth_names \<equiv> capture_filenames env ''DepthCapture_'' ''DepthCamera_'' filename"
  defines "rgb \<equiv> (\<lambda>bytes. \<lparr>width = W, height = H, num_of_channels = 3,
                              bytes_per_channel = 1, data = bytes\<rparr>)"
  defines "convert \<equiv> (\<lambda>d. if d = 1 then 0
       else quantize (undefined_conversion env) depth_scale
              (z_depth (GetZNear (view_control_ptr vis)) (GetZFar (view_control_ptr vis)) d))"
  assumes kept: "window_kept env (view_control_ptr vis0)"
    and raw: "raw_depth env vis0 do_render = Inr p"
  shows "(\<exists>pixels out. screen_pixels env vis0 do_render = Inr pixels
            \<and> CaptureScreenImage env vis0 filename do_render
                = Inr (write_capture env (fst screen_names) (snd screen_names)
                         (ColorPng (rgb out)) vis)
            \<and> (\<forall>i<H. line (W * 3) out i = line (W * 3) pixels (H - 1 - i))
            \<and> flip_lines (rgb pixels) (PrepareImage W H 3 1) = Inr (rgb out)
            \<and> flip_lines (rgb out) (PrepareImage W H 3 1) = Inr (rgb pixels))
       \<and> (\<exists>out. CaptureDepthImage env vis0 filename do_render depth_scale
                = Inr (write_capture env (fst depth_names) (snd depth_names)
                         (DepthPng \<lparr>width = W, height = H, num_of_channels = 1,
                                    bytes_per_channel = 2, data = out\<rparr>) vis)
            \<and> (\<forall>i<H. line W out i = map convert (line W p (H - 1 - i))))"
proof (intro conjI)
  from CaptureScreenImage_result [OF kept, of do_render filename]
  obtain pixels out where s:
    "screen_pixels env vis0 do_render = Inr pixels" "length pixels = W * H * 3"
    "flip_lines (rgb pixels) (PrepareImage W H 3 1) = Inr (rgb out)"
    "CaptureScreenImage env vis0 filename do_render
        = Inr (write_capture env (fst screen_names) (snd screen_names) (ColorPng (rgb out)) vis)"
    "length out = W * H * 3"
    "\<forall>i<H. \<forall>k<W * 3. out ! (W * 3 * i + k) = pixels ! (W * 3 * (H - 1 - i) + k)"
    unfolding vis_def W_def H_def screen_names_def rgb_def by blast
  have lens: "length out = W * 3 * H" "length pixels = W * 3 * H"
    using s(2,5) by (simp_all add: algebra_simps)
  have rows: "line (W * 3) out i = line (W * 3) pixels (H - 1 - i)" if "i < H" for i
  proof (rule lines_eqI [where h = H])
    show "i < H" by (rule that)
    show "H - 1 - i < H" using that by simp
    show "length out = W * 3 * H" "length pixels = W * 3 * H" by (rule lens)+
    fix k assume "k < W * 3"
    then show "out ! (W * 3 * i + k) = pixels ! (W * 3 * (H - 1 - i) + k)"
      using s(6) that by simp
  qed
  have "\<exists>once. flip_lines (rgb pixels) (PrepareImage W H 3 1)
        = Inr ((PrepareImage W H 3 1)\<lparr>data := once\<rparr>)
     \<and> flip_lines ((PrepareImage W H 3 1)\<lparr>data := once\<rparr>) (PrepareImage W H 3 1)
        = Inr ((PrepareImage W H 3 1)\<lparr>data := data (rgb pixels)\<rparr>)"
    by (rule flip_lines_twice)
      (simp_all add: rgb_def BytesPerLine_def PrepareImage_def lens)
  then obtain o' where o':
    "flip_lines (rgb pixels) (PrepareImage W H 3 1) = Inr ((PrepareImage W H 3 1)\<lparr>data := o'\<rparr>)"
    "flip_lines ((PrepareImage W H 3 1)\<lparr>data := o'\<rparr>) (PrepareImage W H 3 1)
        = Inr ((PrepareImage W H 3 1)\<lparr>data := data (rgb pixels)\<rparr>)"
    by blast
  have "(PrepareImage W H 3 1 :: 8 word Image)\<lparr>data := o'\<rparr> = rgb out"
    using o'(1) s(3) by simp
  moreover have "(PrepareImage W H 3 1 :: 8 word Image)\<lparr>data := data (rgb pixels)\<rparr> = rgb pixels"
    by (simp add: rgb_def PrepareImage_def)
  ultimately have again: "flip_lines (rgb out) (PrepareImage W H 3 1) = Inr (rgb pixels)"
    using o'(2) by simp
  show "\<exists>pixels out. screen_pixels env vis0 do_render = Inr pixels
            \<and> CaptureScreenImage env vis0 filename do_render
                = Inr (write_capture env (fst screen_names) (snd screen_names)
                         (ColorPng (rgb out)) vis)
            \<and> (\<forall>i<H. line (W * 3) out i = line (W * 3) pixels (H - 1 - i))
            \<and> flip_lines (rgb pixels) (PrepareImage W H 3 1) = Inr (rgb out)
            \<and> flip_lines (rgb out) (PrepareImage W H 3 1) = Inr (rgb pixels)"
    using s(1,3,4) rows again by blast
next
  from CaptureDepthImage_result [OF kept raw, of filename depth_scale]
  obtain out where out:
    "CaptureDepthImage env vis0 filename do_render depth_scale
        = Inr (write_capture env (fst depth_names) (snd depth_names)
                 (DepthPng \<lparr>width = W, height = H, num_of_channels = 1,
                            bytes_per_channel = 2, data = out\<rparr>) vis)"
    "length out = W * H"
    "\<forall>i<H. \<forall>j<W. out ! (W * i + j) = convert (p ! (W * (H - 1 - i) + j))"
    unfolding vis_def W_def H_def depth_names_def convert_def by blast
  have len: "length p = W * H"
    using raw unfolding raw_depth_def W_def H_def by (rule read_depth_length)
  have "line W out i = map convert (line W p (H - 1 - i))" if "i < H" for i
  proof (rule lines_mapI [where h = H])
    show "i < H" by (rule that)
    show "H - 1 - i < H" using that by simp
    show "length out = W * H" "length p = W * H" by (rule out(2), rule len)
    fix k assume "k < W"
    then show "out ! (W * i + k) = convert (p ! (W * (H - 1 - i) + k))"
      using out(3) that by simp
  qed
  then show "\<exists>out. CaptureDepthImage env vis0 filename do_render depth_scale
                = Inr (write_capture env (fst depth_names) (snd depth_names)
                         (DepthPng \<lparr>width = W, height = H, num_of_channels = 1,
                                    bytes_per_channel = 2, data = out\<rparr>) vis)
            \<and> (\<forall>i<H. line W out i = map convert (line W p (H - 1 - i)))"
    using out(1) by blast
qed


theorem captured_image_is_vertical_flip_witness:
  "window_kept example_env (view_control_ptr example_vis)
   \<and> raw_depth example_env example_vis True = Inr [1 / 2, 1]
   \<and> (\<exists>pixels out. screen_pixels example_env example_vis True = Inr pixels
        \<and> CaptureScreenImage example_env example_vis ''screen.png'' True
            = Inr (write_capture example_env ''screen.png'' []
                     (ColorPng \<lparr>width = 1, height = 2, num_of_channels = 3,
                                bytes_per_channel = 1, data = out\<rparr>)
                     (render_first example_env example_vis True))
        \<and> line 3 out 0 = line 3 pixels 1 \<and> line 3 out 1 = line 3 pixels 0
        \<and> flip_lines \<lparr>width = 1, height = 2, num_of_channels = 3,
                        bytes_per_channel = 1, data = out\<rparr> (PrepareImage 1 2 3 1)
            = Inr \<lparr>width = 1, height = 2, num_of_channels = 3,
                    bytes_per_channel = 1, data = pixels\<rparr>)
   \<and> (\<exists>out. CaptureDepthImage example_env example_vis ''screen.png'' True 100
            = Inr (write_capture example_env ''screen.png'' []
                     (DepthPng \<lparr>width = 1, height = 2, num_of_channels = 1,
                                bytes_per_channel = 2, data = out\<rparr>)
                     (render_first example_env example_vis True))
        \<and> line 1 out 0 = [0] \<and> line 1 out 1 = [7500])"
proof -
  have W: "GetWindowWidth (view_control_ptr example_vis) = 1"
    and H: "GetWindowHeight (view_control_ptr example_vis) = 2"
    and n1: "capture_filenames example_env ''ScreenCapture_'' ''ScreenCamera_'' ''screen.png''
        = (''screen.png'', [])"
    and n2: "capture_filenames example_env ''DepthCapture_'' ''DepthCamera_'' ''screen.png''
        = (''screen.png'', [])"
    and z: "GetZNear (view_control_ptr (render_first example_env example_vis True)) = 50"
      "GetZFar (view_control_ptr (render_first example_env example_vis True)) = 150"
    and u: "undefined_conversion example_env = low16"
    by (simp_all add: example_defs capture_filenames_def render_first_def Render_def)
  note c = captured_image_is_vertical_flip [OF example_window_kept example_raw_depth,
      of "''screen.png''" 100, unfolded W H n1 n2 z u fst_conv snd_conv]
  have q: "quantize low16 100 (z_depth 50 150 (1 / 2)) = 7500"
    by (simp add: quantize_def z_depth_def depth_denominator_def dbl_minus_def trunc_def
        INT16_MAX_def rnd64_numeral)
  have l: "line (Suc 0) [1 / 2, 1 :: real] 0 = [1 / 2]"
    "line (Suc 0) [1 / 2, 1 :: real] (Suc 0) = [1]"
    by (simp_all add: line_def)
  from c obtain pixels out where s:
    "screen_pixels example_env example_vis True = Inr pixels"
    "CaptureScreenImage example_env example_vis ''screen.png'' True
        = Inr (write_capture example_env ''screen.png'' []
                 (ColorPng \<lparr>width = 1, height = 2, num_of_channels = 3,
                            bytes_per_channel = 1, data = out\<rparr>)
                 (render_first example_env example_vis True))"
    "\<forall>i<2. line (1 * 3) out i = line (1 * 3) pixels (2 - 1 - i)"
    "flip_lines \<lparr>width = 1, height = 2, num_of_channels = 3,
                    bytes_per_channel = 1, data = out\<rparr> (PrepareImage 1 2 3 1)
        = Inr \<lparr>width = 1, height = 2, num_of_channels = 3,
                bytes_per_channel = 1, data = pixels\<rparr>"
    by blast
  from c obtain dout where d:
    "CaptureDepthImage example_env example_vis ''screen.png'' True 100
        = Inr (write_capture example_env ''screen.png'' []
                 (DepthPng \<lparr>width = 1, height = 2, num_of_channels = 1,
                            bytes_per_channel = 2, data = dout\<rparr>)
                 (render_first example_env example_vis True))"
    "\<forall>i<2. line 1 dout i
        = map (\<lambda>d. if d = 1 then 0 else quantize low16 100 (z_depth 50 150 d))
            (line 1 [1 / 2, 1] (2 - 1 - i))"
    by blast
  have "line 3 out 0 = line 3 pixels 1" "line 3 out 1 = line 3 pixels 0"
    using s(3) by (simp_all add: all_less_2)
  moreover have "line 1 dout 0 = [0]" "line 1 dout 1 = [7500]"
    using d(2) by (simp_all add: all_less_2 l q)
  ultimately show ?thesis
    using example_window_kept example_raw_depth s(1,2,4) d(1) by blast
qed

text \<open>
  C8. For a window \<open>W\<close> wide and \<open>H\<close> high, the screen image that the screen capture
  reads and the colour image that it writes hold \<open>W * H * 3\<close> bytes each; the raw depth
  image that the depth capture reads holds \<open>W * H * 4\<close> bytes and the depth image
  that it writes \<open>W * H * 2\<close> bytes, whenever the read of the depth buffer ends without
  a fault. Each size is the bytes of a line times the height.
\<close>

theorem capture_buffer_sizes:
  fixes env :: "('i, 'e) collaborators" and vis0 :: "('i, 'e) Visualizer"
    and do_render :: bool and filename :: string
  defines "vis \<equiv> render_first env vis0 do_render"
  defines "W \<equiv> GetWindowWidth (view_control_ptr vis0)"
  defines "H \<equiv> GetWindowHeight (view_control_ptr vis0)"
  defines "screen_names \<equiv> capture_filenames env ''ScreenCapture_'' ''ScreenCamera_'' filename"
  defines "depth_names \<equiv> capture_filenames env ''DepthCapture_'' ''DepthCamera_'' filename"
  assumes kept: "window_kept env (view_control_ptr vis0)"
  shows "(\<exists>screen_image png_image.
            capture_screen_buffers env vis0 do_render = Inr (screen_image, png_image, vis)
          \<and> CaptureScreenImage env vis0 filename do_render
              = Inr (write_capture env (fst screen_names) (snd screen_names)
                       (ColorPng png_image) vis)
          \<and> screen_pixels env vis0 do_render = Inr (data screen_image)
          \<and> size_in_bytes screen_image = W * H * 3
          \<and> size_in_bytes screen_image = BytesPerLine screen_image * height screen_image
          \<and> size_in_bytes png_image = W * H * 3
          \<and> size_in_bytes png_image = BytesPerLine png_image * height png_image)
       \<and> (\<forall>p. raw_depth env vis0 do_render = Inr p \<longrightarrow>
            (\<exists>depth_image png_image.
               capture_depth_buffers env vis0 do_render depth_scale
                 = Inr (depth_image, png_image, vis)
             \<and> CaptureDepthImage env vis0 filename do_render depth_scale
                 = Inr (write_capture env (fst depth_names) (snd depth_names)
                          (DepthPng png_image) vis)
             \<and> data depth_image = p
             \<and> size_in_bytes depth_image = W * H * 4
             \<and> size_in_bytes depth_image = BytesPerLine depth_image * height depth_image
             \<and> size_in_bytes png_image = W * H * 2
             \<and> size_in_bytes png_image = BytesPerLine png_image * height png_image))
       \<and> (\<forall>e. raw_depth env vis0 do_render = Inl e \<longrightarrow>
            capture_depth_buffers env vis0 do_render depth_scale = Inl e
          \<and> CaptureDepthImage env vis0 filename do_render depth_scale = Inl e)"
proof (intro conjI allI impI)
  from CaptureScreenImage_result [OF kept, of do_render filename]
  obtain pixels out where s:
    "screen_pixels env vis0 do_render = Inr pixels" "length pixels = W * H * 3"
    "capture_screen_buffers env vis0 do_render
        = Inr (\<lparr>width = W, height = H, num_of_channels = 3,
                 bytes_per_channel = 1, data = pixels\<rparr>,
               \<lparr>width = W, height = H, num_of_channels = 3,
                 bytes_per_channel = 1, data = out\<rparr>, vis)"
    "CaptureScreenImage env vis0 filename do_render
        = Inr (write_capture env (fst screen_names) (snd screen_names)
                 (ColorPng \<lparr>width = W, height = H, num_of_channels = 3,
                            bytes_per_channel = 1, data = out\<rparr>) vis)"
    "length out = W * H * 3"
    unfolding vis_def W_def H_def screen_names_def by blast
  define screen_image :: "8 word Image" where
    "screen_image = \<lparr>width = W, height = H, num_of_channels = 3,
                      bytes_per_channel = 1, data = pixels\<rparr>"
  define png_image :: "8 word Image" where
    "png_image = \<lparr>width = W, height = H, num_of_channels = 3,
                   bytes_per_channel = 1, data = out\<rparr>"
  have "size_in_bytes screen_image = W * H * 3"
    "size_in_bytes screen_image = BytesPerLine screen_image * height screen_image"
    "size_in_bytes png_image = W * H * 3"
    "size_in_bytes png_image = BytesPerLine png_image * height png_image"
    "screen_pixels env vis0 do_render = Inr (data screen_image)"
    using s(1,2,5)
    by (simp_all add: screen_image_def png_image_def size_in_bytes_def BytesPerLine_def
        algebra_simps)
  then show "\<exists>screen_image png_image.
            capture_screen_buffers env vis0 do_render = Inr (screen_image, png_image, vis)
          \<and> CaptureScreenImage env vis0 filename do_render
              = Inr (write_capture env (fst screen_names) (snd screen_names)
                       (ColorPng png_image) vis)
          \<and> screen_pixels env vis0 do_render = Inr (data screen_image)
          \<and> size_in_bytes screen_image = W * H * 3
          \<and> size_in_bytes screen_image = BytesPerLine screen_image * height screen_image
          \<and> size_in_bytes png_image = W * H * 3
          \<and> size_in_bytes png_image = BytesPerLine png_image * height png_image"
    using s(3,4) unfolding screen_image_def png_image_def by blast
next
  fix p
  assume raw: "raw_depth env vis0 do_render = Inr p"
  from CaptureDepthImage_result [OF kept raw, of filename depth_scale]
  obtain out where d:
    "CaptureDepthImage env vis0 filename do_render depth_scale
        = Inr (write_capture env (fst depth_names) (snd depth_names)
                 (DepthPng \<lparr>width = W, height = H, num_of_channels = 1,
                            bytes_per_channel = 2, data = out\<rparr>) vis)"
    "length out = W * H"
    "capture_depth_buffers env vis0 do_render depth_scale
        = Inr (\<lparr>width = W, height = H, num_of_channels = 1,
                 bytes_per_channel = 4, data = p\<rparr>,
               \<lparr>width = W, height = H, num_of_channels = 1,
                 bytes_per_channel = 2, data = out\<rparr>, vis)"
    unfolding vis_def W_def H_def depth_names_def by blast
  have len: "length p = W * H"
    using raw unfolding raw_depth_def W_def H_def by (rule read_depth_length)
  define depth_image :: "real Image" where
    "depth_image = \<lparr>width = W, height = H, num_of_channels = 1,
                     bytes_per_channel = 4, data = p\<rparr>"
  define png_image :: "16 word Image" where
    "png_image = \<lparr>width = W, height = H, num_of_channels = 1,
                   bytes_per_channel = 2, data = out\<rparr>"
  have "size_in_bytes depth_image = W * H * 4"
    "size_in_bytes depth_image = BytesPerLine depth_image * height depth_image"
    "size_in_bytes png_image = W * H * 2"
    "size_in_bytes png_image = BytesPerLine png_image * height png_image"
    "data depth_image = p"
    using d(2) len
    by (simp_all add: depth_image_def png_image_def size_in_bytes_def BytesPerLine_def
        algebra_simps)
  then show "\<exists>depth_image png_image.
               capture_depth_buffers env vis0 do_render depth_scale
                 = Inr (depth_image, png_image, vis)
             \<and> CaptureDepthImage env vis0 filename do_render depth_scale
                 = Inr (write_capture env (fst depth_names) (snd depth_names)
                          (DepthPng png_image) vis)
             \<and> data depth_image = p
             \<and> size_in_bytes depth_image = W * H * 4
             \<and> size_in_bytes depth_image = BytesPerLine depth_image * height depth_image
             \<and> size_in_bytes png_image = W * H * 2
             \<and> size_in_bytes png_image = BytesPerLine png_image * height png_image"
    using d(1,3) unfolding depth_image_def png_image_def by blast
next
  fix e
  assume "raw_depth env vis0 do_render = Inl e"
  then show "capture_depth_buffers env vis0 do_render depth_scale = Inl e"
    and "CaptureDepthImage env vis0 filename do_render depth_scale = Inl e"
    by (rule capture_depth_fault)+
qed

theorem capture_buffer_sizes_witness:
  "window_kept example_env (view_control_ptr example_vis)
   \<and> raw_depth example_env example_vis True = Inr [1 / 2, 1]
   \<and> raw_depth (example_env\<lparr>APPLE := True\<rparr>)
        (example_vis\<lparr>view_control_ptr :=
           \<lparr>GetWindowWidth = 2, GetWindowHeight = 1, GetZNear = 50, GetZFar = 150\<rparr>\<rparr>) True
       = Inl BufferOverrun
   \<and> (\<exists>screen_image png_image.
          capture_screen_buffers example_env example_vis True
            = Inr (screen_image, png_image, render_first example_env example_vis True)
        \<and> size_in_bytes screen_image = 6 \<and> size_in_bytes png_image = 6)
   \<and> (\<exists>depth_image png_image.
          capture_depth_buffers example_env example_vis True 100
            = Inr (depth_image, png_image, render_first example_env example_vis True)
        \<and> data depth_image = [1 / 2, 1]
        \<and> size_in_bytes depth_image = 8 \<and> size_in_bytes png_image = 4)
   \<and> CaptureDepthImage (example_env\<lparr>APPLE := True\<rparr>)
        (example_vis\<lparr>view_control_ptr :=
           \<lparr>GetWindowWidth = 2, GetWindowHeight = 1, GetZNear = 50, GetZFar = 150\<rparr>\<rparr>)
        ''capture.png'' True 100 = Inl BufferOverrun"
proof -
  have W: "GetWindowWidth (view_control_ptr example_vis) = 1"
    and H: "GetWindowHeight (view_control_ptr example_vis) = 2"
    by (simp_all add: example_defs)
  note c = capture_buffer_sizes [OF example_window_kept, of True "''capture.png''" 100,
      unfolded W H]
  from c obtain screen_image png_image where s:
    "capture_screen_buffers example_env example_vis True
        = Inr (screen_image, png_image, render_first example_env example_vis True)"
    "size_in_bytes screen_image = 1 * 2 * 3"
    "size_in_bytes png_image = 1 * 2 * 3"
    by blast
  from c example_raw_depth obtain depth_image depth_png where d:
    "capture_depth_buffers example_env example_vis True 100
        = Inr (depth_image, depth_png, render_first example_env example_vis True)"
    "data depth_image = [1 / 2, 1]"
    "size_in_bytes depth_image = 1 * 2 * 4"
    "size_in_bytes depth_png = 1 * 2 * 2"
    by blast
  define wide where "wide = example_vis\<lparr>view_control_ptr :=
      \<lparr>GetWindowWidth = 2, GetWindowHeight = 1, GetZNear = 50, GetZFar = 150\<rparr>\<rparr>"
  have kept2: "window_kept (example_env\<lparr>APPLE := True\<rparr>) (view_control_ptr wide)"
    by (simp add: window_kept_def example_defs wide_def)
  have raw2: "raw_depth (example_env\<lparr>APPLE := True\<rparr>) wide True = Inl BufferOverrun"
    using raw_depth_columns(2) [of "example_env\<lparr>APPLE := True\<rparr>" wide True]
    by (simp add: example_defs wide_def)
  have "CaptureDepthImage (example_env\<lparr>APPLE := True\<rparr>) wide ''capture.png'' True 100
      = Inl BufferOverrun"
    using capture_buffer_sizes [OF kept2, of True "''capture.png''" 100] raw2 by blast
  moreover have "size_in_bytes screen_image = 6" "size_in_bytes png_image = 6"
    "size_in_bytes depth_image = 8" "size_in_bytes depth_png = 4"
    using s(2,3) d(3,4) by simp_all
  ultimately show ?thesis
    using example_window_kept example_raw_depth raw2 s(1) d(1,2) unfolding wide_def by blast
qed

text \<open>
  C1. The claim is that a sample whose rounded value exceeds 32767 is stored as 32767.
  The source converts the rounded value to \<open>uint16_t\<close> before it takes the minimum with
  32767. At the clip distances 50 and 150, the raw depth 0.5 and the depth scale 1000
  the depth is 75 and the rounded value 75000, which \<open>uint16_t\<close> does not hold: the
  stored sample is the minimum of what the undefined conversion gives and 32767, and
  with the conversion that keeps the low 16 bits it is 9464, in the sample computed and
  in the image that the depth capture writes.
\<close>

theorem quantize_converts_before_clamping:
  "z_depth 50 150 (1 / 2) = Fin 75
   \<and> quantize ub 1000 (Fin 75) = min (ub (Fin 75000)) 32767
   \<and> quantize low16 1000 (Fin 75) = 9464
   \<and> CaptureDepthImage example_env example_vis ''depth.png'' True 1000
       = Inr (write_capture example_env ''depth.png'' []
                (DepthPng \<lparr>width = 1, height = 2, num_of_channels = 1,
                           bytes_per_channel = 2, data = [0, 9464]\<rparr>)
                (render_first example_env example_vis True))"
proof (intro conjI)
  show "z_depth 50 150 (1 / 2) = Fin 75"
    by (simp add: z_depth_def depth_denominator_def dbl_minus_def rnd64_numeral)
  show "quantize ub 1000 (Fin 75) = min (ub (Fin 75000)) 32767"
    by (simp add: quantize_def trunc_def INT16_MAX_def rnd64_numeral)
  show "quantize low16 1000 (Fin 75) = 9464"
    by (simp add: quantize_def trunc_def INT16_MAX_def rnd64_numeral)
  show "CaptureDepthImage example_env example_vis ''depth.png'' True 1000
       = Inr (write_capture example_env ''depth.png'' []
                (DepthPng \<lparr>width = 1, height = 2, num_of_channels = 1,
                           bytes_per_channel = 2, data = [0, 9464]\<rparr>)
                (render_first example_env example_vis True))"
    by (simp add: CaptureDepthImage_def capture_filenames_def render_first_def Render_def
        read_depth_def read_depth_block_def glReadPixels_def convert_depth_def
        convert_pixel_def load_def store_def PrepareImage_def BytesPerLine_def sample_at_def
        quantize_def z_depth_def depth_denominator_def dbl_minus_def trunc_def INT16_MAX_def
        rnd64_numeral rnd64_15_2 capture_depth_buffers_def split_beta
        example_defs upt_small replicate_small Let_def write_capture_def WriteFile_def)
qed

text \<open>
  C2. The claim is that each transfer of the column-wise read takes one column of the
  full height. The source passes the width of the image as the height of the block
  (line 162), so each transfer reads \<open>width\<close> rows. In the window one pixel wide and
  two pixels high the second row is never read and stays 0, where the read of the whole
  block gives 1; the depth capture then writes 5 for the pixel with no surface, not 0.
  In a window two pixels wide and one pixel high the transfer writes two floats into
  the buffer of one float.
\<close>

theorem column_read_takes_width_rows:
  "read_depth_columns (depth_plane example_frame) (PrepareImage 1 2 1 4) = Inr [1 / 2, 0]
   \<and> read_depth_block (depth_plane example_frame) (PrepareImage 1 2 1 4) = Inr [1 / 2, 1]
   \<and> read_depth_columns (depth_plane example_frame) (PrepareImage 2 1 1 4)
       = Inl BufferOverrun
   \<and> CaptureDepthImage (example_env\<lparr>APPLE := True\<rparr>) example_vis ''depth.png'' True (1 / 10)
       = Inr (write_capture (example_env\<lparr>APPLE := True\<rparr>) ''depth.png'' []
                (DepthPng \<lparr>width = 1, height = 2, num_of_channels = 1,
                           bytes_per_channel = 2, data = [5, 8]\<rparr>)
                (render_first (example_env\<lparr>APPLE := True\<rparr>) example_vis True))
   \<and> CaptureDepthImage example_env example_vis ''depth.png'' True (1 / 10)
       = Inr (write_capture example_env ''depth.png'' []
                (DepthPng \<lparr>width = 1, height = 2, num_of_channels = 1,
                           bytes_per_channel = 2, data = [0, 8]\<rparr>)
                (render_first example_env example_vis True))"
proof (intro conjI)
  show "read_depth_columns (depth_plane example_frame) (PrepareImage 1 2 1 4) = Inr [1 / 2, 0]"
    by (simp add: read_depth_columns_def glReadPixels_def load_def store_def PrepareImage_def
        example_defs upt_small replicate_small)
  show "read_depth_block (depth_plane example_frame) (PrepareImage 1 2 1 4) = Inr [1 / 2, 1]"
    by (simp add: read_depth_block_def glReadPixels_def PrepareImage_def
        example_defs upt_small replicate_small)
  show "read_depth_columns (depth_plane example_frame) (PrepareImage 2 1 1 4)
       = Inl BufferOverrun"
    by (simp add: read_depth_columns_def glReadPixels_def PrepareImage_def
        example_defs upt_small)
  show "CaptureDepthImage (example_env\<lparr>APPLE := True\<rparr>) example_vis ''depth.png'' True (1 / 10)
       = Inr (write_capture (example_env\<lparr>APPLE := True\<rparr>) ''depth.png'' []
                (DepthPng \<lparr>width = 1, height = 2, num_of_channels = 1,
                           bytes_per_channel = 2, data = [5, 8]\<rparr>)
                (render_first (example_env\<lparr>APPLE := True\<rparr>) example_vis True))"
    by (simp add: CaptureDepthImage_def capture_filenames_def render_first_def Render_def
        read_depth_def read_depth_columns_def glReadPixels_def convert_depth_def
        convert_pixel_def load_def store_def PrepareImage_def BytesPerLine_def sample_at_def
        quantize_def z_depth_def depth_denominator_def dbl_minus_def trunc_def INT16_MAX_def
        rnd64_numeral rnd64_15_2 capture_depth_buffers_def split_beta
        example_defs upt_small replicate_small Let_def write_capture_def WriteFile_def)
  show "CaptureDepthImage example_env example_vis ''depth.png'' True (1 / 10)
       = Inr (write_capture example_env ''depth.png'' []
                (DepthPng \<lparr>width = 1, height = 2, num_of_channels = 1,
                           bytes_per_channel = 2, data = [0, 8]\<rparr>)
                (render_first example_env example_vis True))"
    by (simp add: CaptureDepthImage_def capture_filenames_def render_first_def Render_def
        read_depth_def read_depth_block_def glReadPixels_def convert_depth_def
        convert_pixel_def load_def store_def PrepareImage_def BytesPerLine_def sample_at_def
        quantize_def z_depth_def depth_denominator_def dbl_minus_def trunc_def INT16_MAX_def
        rnd64_numeral rnd64_15_2 capture_depth_buffers_def split_beta
        example_defs upt_small replicate_small Let_def write_capture_def WriteFile_def)
qed

end
